theory Spec2Isabelle
  imports Main "HOL-Library.Word"
begin

section \<open>Values of the program\<close>

text \<open>
  The program is \<^verbatim>\<open>src/meeting_agent.py\<close>, a Streamlit script. A Python \<^verbatim>\<open>str\<close> is a
  sequence of Unicode code points and \<^verbatim>\<open>len\<close> counts code points, so a string is a list
  of code points here; \<open>lit\<close> turns an ASCII literal of the source into one. A
  \<^verbatim>\<open>bytes\<close> value is a list of 8-bit words. An exception is an instance of a subclass of
  \<^verbatim>\<open>Exception\<close> (what \<^verbatim>\<open>except Exception\<close> catches) and carries the text that
  \<^verbatim>\<open>str(exc)\<close> gives.
\<close>

type_synonym pystr = "nat list"

type_synonym byte = "8 word"

definition lit :: "string \<Rightarrow> pystr" where
  "lit s = map of_char s"

datatype exn = Exception pystr

fun str_exn :: "exn \<Rightarrow> pystr" where
  "str_exn (Exception m) = m"

subsection \<open>Built-in string operations the source calls\<close>

text \<open>
  \<^verbatim>\<open>str.isspace\<close> for one code point: the 29 code points CPython counts as whitespace.
  \<^verbatim>\<open>str.strip()\<close> removes them from both ends.
\<close>

definition isspace :: "nat \<Rightarrow> bool" where
  "isspace c \<longleftrightarrow>
     (9 \<le> c \<and> c \<le> 13) \<or> (28 \<le> c \<and> c \<le> 32) \<or> c = 133 \<or> c = 160 \<or> c = 5760 \<or>
     (8192 \<le> c \<and> c \<le> 8202) \<or> c = 8232 \<or> c = 8233 \<or> c = 8239 \<or> c = 8287 \<or> c = 12288"

definition strip :: "pystr \<Rightarrow> pystr" where
  "strip s = rev (dropWhile isspace (rev (dropWhile isspace s)))"

text \<open>\<^verbatim>\<open>sep.join(parts)\<close>.\<close>

fun join :: "pystr \<Rightarrow> pystr list \<Rightarrow> pystr" where
  "join sep [] = []"
| "join sep [x] = x"
| "join sep (x # y # ys) = x @ sep @ join sep (y # ys)"

text \<open>
  The slice \<^verbatim>\<open>xs[:k]\<close>: a negative \<open>k\<close> counts from the end, and the stop is clamped
  to the sequence. The slice \<^verbatim>\<open>xs[-n:]\<close> for a positive literal \<open>n\<close> keeps the last
  \<open>n\<close> elements.
\<close>

definition slice_to :: "'a list \<Rightarrow> int \<Rightarrow> 'a list" where
  "slice_to xs k = take (nat (if k < 0 then int (length xs) + k else k)) xs"

definition slice_last :: "nat \<Rightarrow> 'a list \<Rightarrow> 'a list" where
  "slice_last n xs = drop (length xs - n) xs"

text \<open>
  \<^verbatim>\<open>str.lower()\<close> on the ASCII letters; other code points are left alone. The source
  only tests the lowered name for the ASCII suffix \<^verbatim>\<open>.pdf\<close>, and lowering a code point
  outside ASCII never gives one of the characters of that suffix.
\<close>

definition lower_char :: "nat \<Rightarrow> nat" where
  "lower_char c = (if 65 \<le> c \<and> c \<le> 90 then c + 32 else c)"

definition lower :: "pystr \<Rightarrow> pystr" where
  "lower s = map lower_char s"

definition endswith :: "pystr \<Rightarrow> pystr \<Rightarrow> bool" where
  "endswith s suffix \<longleftrightarrow> length suffix \<le> length s \<and> drop (length s - length suffix) s = suffix"

section \<open>Truncation\<close>

text \<open>
  \<^verbatim>\<open>MAX_DOCUMENT_CHARS = 6000\<close> (line 18) and \<^verbatim>\<open>_truncate_text\<close> (lines 123-126). The
  marker is the literal \<^verbatim>\<open>"\n\n...[truncated]..."\<close>: two line feeds and 17 characters.
\<close>

definition MAX_DOCUMENT_CHARS :: int where
  "MAX_DOCUMENT_CHARS = 6000"

definition truncation_marker :: pystr where
  "truncation_marker = [10, 10] @ lit ''...[truncated]...''"

definition truncate_text :: "pystr \<Rightarrow> int \<Rightarrow> pystr" where
  "truncate_text val max_chars =
     (if int (length val) \<le> max_chars then val
      else slice_to val max_chars @ truncation_marker)"

section \<open>The history store\<close>

text \<open>
  A history entry is the dict the handlers build (lines 924-932 and 725-733). The session
  state holds the keys the modelled code reads: \<open>None\<close> is an absent key, which
  \<^verbatim>\<open>st.session_state.get(key, default)\<close> reads as the default.
\<close>

record form =
  company_name :: pystr
  meeting_objective :: pystr
  attendees :: pystr
  focus_areas :: pystr

record history_entry =
  timestamp :: pystr
  company :: pystr
  objective :: pystr
  attendees :: pystr
  focusAreas :: pystr
  documents :: "pystr list"
  result :: pystr

record turn =
  role :: pystr
  content :: pystr

record session_state =
  meeting_history :: "history_entry list option"
  history_view :: "history_entry option"
  practice_history :: "turn list option"
  truncate_chars :: "int option"

text \<open>
  The file \<^verbatim>\<open>data/meeting_history.json\<close>. Its location cannot be examined
  (\<^verbatim>\<open>HISTORY_FILE.exists()\<close> raises, as \<^verbatim>\<open>Path.exists\<close> does with \<^verbatim>\<open>PermissionError\<close> for a
  directory that may not be searched), or the file is missing, or it is present. Reading
  a present file raises (\<open>Inl\<close>) or gives its text. The text is the JSON of a list of
  entries (what \<^verbatim>\<open>_write_history_file\<close> writes; \<^verbatim>\<open>json.loads\<close> of \<^verbatim>\<open>json.dumps\<close> gives the
  list back), well-formed JSON of another shape (kept as its text, such as \<^verbatim>\<open>null\<close>), or
  text that \<^verbatim>\<open>json.loads\<close> rejects. What \<^verbatim>\<open>json.loads\<close> returns is accordingly a list of
  entries or another value.
\<close>

datatype file_text = Json "history_entry list" | Json_of_other_shape pystr | Garbage

datatype history_file = Inaccessible exn | Missing | Present "exn + file_text"

datatype loaded = Entry_list "history_entry list" | Other_value pystr

definition file_exists :: "history_file \<Rightarrow> exn + bool" where
  "file_exists f =
     (case f of Inaccessible exc \<Rightarrow> Inl exc | Missing \<Rightarrow> Inr False | Present r \<Rightarrow> Inr True)"

definition read_text :: "history_file \<Rightarrow> exn + file_text" where
  "read_text f =
     (case f of
        Inaccessible exc \<Rightarrow> Inl exc
      | Missing \<Rightarrow> Inl (Exception (lit ''FileNotFoundError''))
      | Present r \<Rightarrow> r)"

definition json_loads :: "file_text \<Rightarrow> exn + loaded" where
  "json_loads t =
     (case t of
        Json es \<Rightarrow> Inr (Entry_list es)
      | Json_of_other_shape v \<Rightarrow> Inr (Other_value v)
      | Garbage \<Rightarrow> Inl (Exception (lit ''JSONDecodeError'')))"

text \<open>
  \<^verbatim>\<open>_read_history_file\<close> (lines 21-27). The test \<^verbatim>\<open>HISTORY_FILE.exists()\<close> of line 22
  stands before the \<^verbatim>\<open>try\<close>, so what it raises leaves the function; line 25 returns
  whatever \<^verbatim>\<open>json.loads\<close> gives.
\<close>

definition read_history_file :: "history_file \<Rightarrow> exn + loaded" where
  "read_history_file f =
     (case file_exists f of
        Inl exc \<Rightarrow> Inl exc
      | Inr False \<Rightarrow> Inr (Entry_list [])
      | Inr True \<Rightarrow>
          (case read_text f of
             Inl exc \<Rightarrow> Inr (Entry_list [])
           | Inr t \<Rightarrow> (case json_loads t of Inl exc \<Rightarrow> Inr (Entry_list []) | Inr v \<Rightarrow> Inr v)))"

text \<open>
  What the file system answers to one call of \<^verbatim>\<open>_write_history_file\<close>:
  \<^verbatim>\<open>DATA_DIR.mkdir\<close> may raise, and \<^verbatim>\<open>HISTORY_FILE.write_text\<close> either writes the text or
  raises, leaving the file in some state (it opens the file for writing first).
\<close>

datatype write_outcome = Written | Write_fails exn history_file

text \<open>\<^verbatim>\<open>_write_history_file\<close> (lines 118-120): no exception handler.\<close>

definition write_history_file ::
  "exn option \<Rightarrow> write_outcome \<Rightarrow> history_entry list \<Rightarrow> history_file \<Rightarrow> (exn + unit) \<times> history_file" where
  "write_history_file mkdir_error write_text entries f =
     (case mkdir_error of
        Some exc \<Rightarrow> (Inl exc, f)
      | None \<Rightarrow>
          (case write_text of
             Written \<Rightarrow> (Inr (), Present (Inr (Json entries)))
           | Write_fails exc f' \<Rightarrow> (Inl exc, f')))"

section \<open>Session, screen and the history store's append\<close>

text \<open>
  What a handler shows on the page (\<^verbatim>\<open>st.error\<close>, \<^verbatim>\<open>st.warning\<close>, \<^verbatim>\<open>st.success\<close>,
  \<^verbatim>\<open>st.markdown\<close>, \<^verbatim>\<open>st.download_button\<close> with its label), in order. The world a
  handler runs in is the session state, the history file and the page.
\<close>

datatype ui_event =
    St_error pystr
  | St_warning pystr
  | St_success pystr
  | St_markdown pystr
  | St_download_button pystr

record world =
  session :: session_state
  history_file :: history_file
  screen :: "ui_event list"

definition emit :: "ui_event \<Rightarrow> world \<Rightarrow> world" where
  "emit e w = w\<lparr>screen := screen w @ [e]\<rparr>"

text \<open>
  \<^verbatim>\<open>_save_meeting_to_history\<close> (lines 167-172): read the list (default \<^verbatim>\<open>[]\<close>), insert
  at index 0, slice to 20, store the slice in the session, then write the file. The
  session is assigned before the write, and an exception of the write is not caught.
\<close>

definition get_meeting_history :: "session_state \<Rightarrow> history_entry list" where
  "get_meeting_history st = (case meeting_history st of None \<Rightarrow> [] | Some es \<Rightarrow> es)"

definition save_meeting_to_history ::
  "exn option \<Rightarrow> write_outcome \<Rightarrow> history_entry \<Rightarrow> world \<Rightarrow> (exn + unit) \<times> world" where
  "save_meeting_to_history mkdir_error write_text entry w =
     (let entries0 = get_meeting_history (session w);
          entries1 = entry # entries0;
          entries = slice_to entries1 20;
          w1 = w\<lparr>session := (session w)\<lparr>meeting_history := Some entries\<rparr>\<rparr>;
          (r, f) = write_history_file mkdir_error write_text entries (history_file w1)
      in (r, w1\<lparr>history_file := f\<rparr>))"

text \<open>
  \<^verbatim>\<open>_clear_history\<close> (lines 184-191): the sibling path that removes the file; both
  \<^verbatim>\<open>exists()\<close> and \<^verbatim>\<open>unlink()\<close> stand inside \<^verbatim>\<open>try ... except Exception: pass\<close>.
  \<open>unlink_error\<close> is what \<^verbatim>\<open>unlink\<close> raises, if it does.
\<close>

definition clear_history :: "exn option \<Rightarrow> world \<Rightarrow> world" where
  "clear_history unlink_error w =
     (let f = (case file_exists (history_file w) of
                 Inl exc \<Rightarrow> history_file w
               | Inr True \<Rightarrow> (case unlink_error of None \<Rightarrow> Missing | Some exc \<Rightarrow> history_file w)
               | Inr False \<Rightarrow> history_file w)
      in w\<lparr>session := (session w)\<lparr>meeting_history := Some [], history_view := None\<rparr>,
            history_file := f\<rparr>)"

text \<open>
  A sequence of append calls, one per user action; each call has its own file-system
  answers. A call whose write raises has already updated the session.
\<close>

fun entry_of :: "exn option \<times> write_outcome \<times> history_entry \<Rightarrow> history_entry" where
  "entry_of (mkdir_error, write_text, entry) = entry"

fun appends :: "(exn option \<times> write_outcome \<times> history_entry) list \<Rightarrow> world \<Rightarrow> world" where
  "appends [] w = w"
| "appends ((mkdir_error, write_text, entry) # calls) w =
     appends calls (snd (save_meeting_to_history mkdir_error write_text entry w))"

section \<open>Result normalization\<close>

text \<open>
  What \<^verbatim>\<open>kickoff()\<close> returns is duck-typed: a plain \<^verbatim>\<open>str\<close>, or an object. Reading an
  attribute of an object finds nothing (\<^verbatim>\<open>AttributeError\<close>), raises another exception
  (a property), or gives a value: a \<^verbatim>\<open>str\<close>, \<^verbatim>\<open>None\<close>, a callable, or something else.
  For a callable the model keeps the outcome of
  \<^verbatim>\<open>json.dumps(<its call>, indent=2, ensure_ascii=False)\<close>: the text, or \<open>Inl\<close> when the call
  or the serialisation raises. \<open>str_of\<close> is the outcome of \<^verbatim>\<open>str(result)\<close> and \<open>truth\<close> is
  the object's truth value. \<^verbatim>\<open>None\<close> itself is an object with no attribute, the text
  \<^verbatim>\<open>None\<close> and truth value \<open>False\<close>.
\<close>

datatype pyval = PStr pystr | PNone | PCallable "exn + pystr" | POther

datatype attr = Absent | Raising exn | Holds pyval

record pyobject =
  attrs :: "string \<Rightarrow> attr"
  str_of :: "exn + pystr"
  truth :: bool

datatype crew_result = Str pystr | Obj pyobject

text \<open>
  \<^verbatim>\<open>getattr(result, attr, None)\<close> gives the default for \<^verbatim>\<open>AttributeError\<close> only, and
  \<^verbatim>\<open>hasattr(result, name)\<close> is \<open>False\<close> for \<^verbatim>\<open>AttributeError\<close> only: both let any other
  exception of the lookup through.
\<close>

definition getattr_default :: "pyobject \<Rightarrow> string \<Rightarrow> exn + pyval" where
  "getattr_default ob a = (case attrs ob a of Absent \<Rightarrow> Inr PNone | Raising exc \<Rightarrow> Inl exc | Holds v \<Rightarrow> Inr v)"

definition hasattr :: "pyobject \<Rightarrow> string \<Rightarrow> exn + bool" where
  "hasattr ob a = (case attrs ob a of Absent \<Rightarrow> Inr False | Raising exc \<Rightarrow> Inl exc | Holds v \<Rightarrow> Inr True)"

text \<open>
  The loop of lines 40-46: the lookup is inside \<^verbatim>\<open>try ... except Exception: val = None\<close>,
  and a value is returned when \<^verbatim>\<open>isinstance(val, str) and val.strip()\<close>.
\<close>

fun first_text :: "pyobject \<Rightarrow> string list \<Rightarrow> pystr option" where
  "first_text ob [] = None"
| "first_text ob (a # rest) =
     (let val = (case getattr_default ob a of Inl exc \<Rightarrow> PNone | Inr v \<Rightarrow> v)
      in (case val of
            PStr s \<Rightarrow> if strip s \<noteq> [] then Some s else first_text ob rest
          | _ \<Rightarrow> first_text ob rest))"

text \<open>
  What one field contributes to that loop: the string it holds, when it holds a string
  that \<^verbatim>\<open>strip()\<close> does not empty.
\<close>

definition field_text :: "pyobject \<Rightarrow> string \<Rightarrow> pystr option" where
  "field_text ob a =
     (case attrs ob a of
        Holds (PStr s) \<Rightarrow> if strip s \<noteq> [] then Some s else None
      | _ \<Rightarrow> None)"

text \<open>\<^verbatim>\<open>json.dumps(result.to_dict(), indent=2, ensure_ascii=False)\<close> (line 50).\<close>

definition to_dict_dumps :: "pyobject \<Rightarrow> exn + pystr" where
  "to_dict_dumps ob =
     (case attrs ob ''to_dict'' of
        Absent \<Rightarrow> Inl (Exception (lit ''AttributeError''))
      | Raising exc \<Rightarrow> Inl exc
      | Holds v \<Rightarrow> (case v of PCallable r \<Rightarrow> r | _ \<Rightarrow> Inl (Exception (lit ''TypeError''))))"

text \<open>Lines 54-57: \<^verbatim>\<open>str(result)\<close>, and the empty string when it raises.\<close>

definition str_fallback :: "pyobject \<Rightarrow> pystr" where
  "str_fallback ob = (case str_of ob of Inr s \<Rightarrow> s | Inl exc \<Rightarrow> [])"

text \<open>The tuple of attribute names of line 40, in its order.\<close>

definition known_fields :: "string list" where
  "known_fields = [''raw'', ''final_output'', ''result'', ''output'']"

text \<open>
  \<^verbatim>\<open>_result_to_markdown\<close> (lines 30-57). The test \<^verbatim>\<open>hasattr(result, "to_dict")\<close> of
  line 48 stands outside every \<^verbatim>\<open>try\<close>, so what it raises leaves the function.
\<close>

definition result_to_markdown :: "crew_result \<Rightarrow> exn + pystr" where
  "result_to_markdown res =
     (case res of
        Str s \<Rightarrow> Inr s
      | Obj ob \<Rightarrow>
          (case first_text ob known_fields of
             Some v \<Rightarrow> Inr v
           | None \<Rightarrow>
               (case hasattr ob ''to_dict'' of
                  Inl exc \<Rightarrow> Inl exc
                | Inr True \<Rightarrow>
                    (case to_dict_dumps ob of
                       Inr s \<Rightarrow> Inr s
                     | Inl exc \<Rightarrow> Inr (str_fallback ob))
                | Inr False \<Rightarrow> Inr (str_fallback ob))))"

text \<open>The truth value \<^verbatim>\<open>if result:\<close> tests.\<close>

definition truthy :: "crew_result \<Rightarrow> bool" where
  "truthy res = (case res of Str s \<Rightarrow> s \<noteq> [] | Obj ob \<Rightarrow> truth ob)"

section \<open>Document ingestion\<close>

text \<open>
  \<^verbatim>\<open>bytes.decode("utf-8", errors="ignore")\<close> as CPython decodes: a well-formed sequence
  gives its code point; an invalid start byte is dropped; a sequence broken by a byte that
  cannot continue it loses the bytes read so far and decoding resumes at that byte; a
  sequence cut off by the end of the input is dropped. The second byte after
  \<open>0xE0\<close>, \<open>0xED\<close>, \<open>0xF0\<close> and \<open>0xF4\<close> has a narrower range (no overlong forms, no
  surrogates, nothing above \<open>0x10FFFF\<close>).
\<close>

definition is_continuation :: "byte \<Rightarrow> bool" where
  "is_continuation c \<longleftrightarrow> 0x80 \<le> c \<and> c \<le> 0xBF"

definition second_of_three :: "byte \<Rightarrow> byte \<Rightarrow> bool" where
  "second_of_three b c \<longleftrightarrow>
     is_continuation c \<and> \<not> (b = 0xE0 \<and> c < 0xA0) \<and> \<not> (b = 0xED \<and> 0xA0 \<le> c)"

definition second_of_four :: "byte \<Rightarrow> byte \<Rightarrow> bool" where
  "second_of_four b c \<longleftrightarrow>
     is_continuation c \<and> \<not> (b = 0xF0 \<and> c < 0x90) \<and> \<not> (b = 0xF4 \<and> 0x90 \<le> c)"

fun utf8_ignore :: "byte list \<Rightarrow> pystr" where
  "utf8_ignore [] = []"
| "utf8_ignore (b # bs) =
     (if b < 0x80 then unat b # utf8_ignore bs
      else if b < 0xC2 then utf8_ignore bs
      else if b < 0xE0 then
        (case bs of
           [] \<Rightarrow> []
         | c # cs \<Rightarrow>
             if is_continuation c
             then (unat b mod 32 * 64 + unat c mod 64) # utf8_ignore cs
             else utf8_ignore bs)
      else if b < 0xF0 then
        (case bs of
           [] \<Rightarrow> []
         | c # cs \<Rightarrow>
             if \<not> second_of_three b c then utf8_ignore bs
             else (case cs of
                     [] \<Rightarrow> []
                   | d # ds \<Rightarrow>
                       if is_continuation d
                       then (unat b mod 16 * 4096 + unat c mod 64 * 64 + unat d mod 64) # utf8_ignore ds
                       else utf8_ignore cs))
      else if b < 0xF5 then
        (case bs of
           [] \<Rightarrow> []
         | c # cs \<Rightarrow>
             if \<not> second_of_four b c then utf8_ignore bs
             else (case cs of
                     [] \<Rightarrow> []
                   | d # ds \<Rightarrow>
                       if \<not> is_continuation d then utf8_ignore cs
                       else (case ds of
                               [] \<Rightarrow> []
                             | e # es \<Rightarrow>
                                 if is_continuation e
                                 then (unat b mod 8 * 262144 + unat c mod 64 * 4096
                                       + unat d mod 64 * 64 + unat e mod 64) # utf8_ignore es
                                 else utf8_ignore ds)))
      else utf8_ignore bs)"

text \<open>With \<^verbatim>\<open>errors="ignore"\<close> the call returns a string for every \<^verbatim>\<open>bytes\<close> value.\<close>

definition decode_utf8_ignore :: "byte list \<Rightarrow> exn + pystr" where
  "decode_utf8_ignore bs = Inr (utf8_ignore bs)"

text \<open>
  An uploaded file has a name and its bytes. \<^verbatim>\<open>PdfReader\<close> is an outside library: for
  the bytes of a file it raises, or gives pages, and \<^verbatim>\<open>extract_text()\<close> of a page raises
  or gives a string or \<^verbatim>\<open>None\<close>. Line 140 joins \<^verbatim>\<open>page.extract_text() or ""\<close> with line
  feeds.
\<close>

record uploaded_file =
  name :: pystr
  getvalue :: "byte list"

record document =
  name :: pystr
  content :: pystr

type_synonym pdf_reader = "byte list \<Rightarrow> exn + (exn + pystr option) list"

fun page_texts :: "(exn + pystr option) list \<Rightarrow> exn + pystr list" where
  "page_texts [] = Inr []"
| "page_texts (p # ps) =
     (case p of
        Inl exc \<Rightarrow> Inl exc
      | Inr t \<Rightarrow>
          (case page_texts ps of
             Inl exc \<Rightarrow> Inl exc
           | Inr ts \<Rightarrow> Inr ((case t of None \<Rightarrow> [] | Some s \<Rightarrow> s) # ts)))"

definition pdf_text :: "pdf_reader \<Rightarrow> byte list \<Rightarrow> exn + pystr" where
  "pdf_text reader file_bytes =
     (case reader file_bytes of
        Inl exc \<Rightarrow> Inl exc
      | Inr pages \<Rightarrow> (case page_texts pages of Inl exc \<Rightarrow> Inl exc | Inr ts \<Rightarrow> Inr (join [10] ts)))"

text \<open>Line 137: \<^verbatim>\<open>name.lower().endswith(".pdf")\<close>.\<close>

definition is_pdf_name :: "pystr \<Rightarrow> bool" where
  "is_pdf_name nm \<longleftrightarrow> endswith (lower nm) (lit ''.pdf'')"

text \<open>
  \<^verbatim>\<open>_extract_supporting_documents\<close> (lines 129-153): the loop, with the list built so far
  and the warnings shown so far. \<open>docs\<close> is the source's \<^verbatim>\<open>documents\<close>.
\<close>

fun extract_loop ::
  "pdf_reader \<Rightarrow> uploaded_file list \<Rightarrow> document list \<Rightarrow> ui_event list \<Rightarrow> document list \<times> ui_event list" where
  "extract_loop reader [] docs warnings = (docs, warnings)"
| "extract_loop reader (uploaded # rest) docs warnings =
     (let file_bytes = getvalue uploaded in
      if file_bytes = [] then extract_loop reader rest docs warnings
      else
        (let nm = uploaded_file.name uploaded;
             decoded =
               (if is_pdf_name nm
                then (case pdf_text reader file_bytes of
                        Inl exc \<Rightarrow> Inl (St_warning (lit ''Could not read '' @ nm @ lit '': '' @ str_exn exc))
                      | Inr t \<Rightarrow> Inr t)
                else (case decode_utf8_ignore file_bytes of
                        Inl exc \<Rightarrow> Inl (St_warning (lit ''Could not decode '' @ nm @ lit '': '' @ str_exn exc))
                      | Inr t \<Rightarrow> Inr t))
         in (case decoded of
               Inl warning \<Rightarrow> extract_loop reader rest docs (warnings @ [warning])
             | Inr t \<Rightarrow>
                 (let t' = strip t in
                  if t' \<noteq> []
                  then extract_loop reader rest (docs @ [\<lparr>document.name = nm, content = t'\<rparr>]) warnings
                  else extract_loop reader rest docs warnings))))"

definition extract_supporting_documents ::
  "pdf_reader \<Rightarrow> uploaded_file list option \<Rightarrow> document list \<times> ui_event list" where
  "extract_supporting_documents reader uploaded_files =
     extract_loop reader (case uploaded_files of None \<Rightarrow> [] | Some fs \<Rightarrow> fs) [] []"

text \<open>
  What a file that takes the text branch contributes: its bytes decoded and stripped, and
  the document built from them.
\<close>

definition decoded_text :: "uploaded_file \<Rightarrow> pystr" where
  "decoded_text uploaded = strip (utf8_ignore (getvalue uploaded))"

definition as_document :: "uploaded_file \<Rightarrow> document" where
  "as_document uploaded = \<lparr>document.name = uploaded_file.name uploaded, content = decoded_text uploaded\<rparr>"

section \<open>Context assembly\<close>

text \<open>\<^verbatim>\<open>_build_document_digest\<close> (lines 156-164).\<close>

definition build_document_digest :: "session_state \<Rightarrow> document list \<Rightarrow> pystr" where
  "build_document_digest st docs =
     (if docs = [] then lit ''No additional supporting documents were provided.''
      else join [10, 10]
             (map (\<lambda>doc. lit ''Document: '' @ document.name doc @ [10] @ lit ''Content Preview:'' @ [10]
                          @ truncate_text (document.content doc)
                              (case truncate_chars st of None \<Rightarrow> MAX_DOCUMENT_CHARS | Some n \<Rightarrow> n))
                  docs))"

text \<open>
  The directive list of lines 593-605: three appends, each under its own \<^verbatim>\<open>if\<close>. A
  string is true when it is not empty.
\<close>

definition directive_live :: pystr where
  "directive_live = lit ''Incorporate the most recent news, market movements, and growth signals discovered via live search.''"

definition directive_regulatory :: pystr where
  "directive_regulatory = lit ''Highlight regulatory, compliance, and localization considerations that could influence the meeting.''"

definition directive_notes :: pystr where
  "directive_notes = lit ''Bridge insights with the historical notes provided to emphasize continuity and momentum.''"

definition context_directives :: "bool \<Rightarrow> bool \<Rightarrow> pystr \<Rightarrow> pystr list" where
  "context_directives include_live_updates include_regulatory meeting_notes =
     (let ds0 = [];
          ds1 = (if include_live_updates then ds0 @ [directive_live] else ds0);
          ds2 = (if include_regulatory then ds1 @ [directive_regulatory] else ds1);
          ds3 = (if meeting_notes \<noteq> [] then ds2 @ [directive_notes] else ds2)
      in ds3)"

text \<open>Line 607: the bullets joined by line feeds, or the fallback when that text is empty.\<close>

definition fallback_directive :: pystr where
  "fallback_directive = lit ''- Focus on actionable intelligence.''"

definition bullet :: "pystr \<Rightarrow> pystr" where
  "bullet directive = lit ''- '' @ directive"

definition context_directives_text :: "bool \<Rightarrow> bool \<Rightarrow> pystr \<Rightarrow> pystr" where
  "context_directives_text include_live_updates include_regulatory meeting_notes =
     (let joined = join [10] (map bullet (context_directives include_live_updates include_regulatory meeting_notes))
      in if joined \<noteq> [] then joined else fallback_directive)"

text \<open>Lines 609-615: the shared context block.\<close>

definition shared_context :: "pystr \<Rightarrow> pystr \<Rightarrow> pystr" where
  "shared_context documents_digest meeting_notes =
     [10] @ lit ''Supporting documents summary:'' @ [10] @ documents_digest @ [10, 10]
     @ lit ''Historical notes supplied by the team:'' @ [10]
     @ (if meeting_notes \<noteq> [] then meeting_notes else lit ''No additional notes were provided.'') @ [10]"

section \<open>The handlers\<close>

text \<open>
  A crew is built from task descriptions, which are fixed templates with values of the
  form substituted; the model keeps the substituted values, in the order of the template.
  \<^verbatim>\<open>Crew.kickoff()\<close> belongs to an outside library: for a crew it raises or returns a
  result. The other answers of the outside world during one run of the script are the
  clock, whether \<^verbatim>\<open>st.download_button\<close> raises for a label, whether the nested slides
  button reads as pressed, what \<^verbatim>\<open>_brief_to_pptx\<close> gives, and the file system's answers
  to \<^verbatim>\<open>_write_history_file\<close>.
\<close>

datatype crew =
    Meeting_prep "pystr list"
  | Transcript_summary "pystr list"
  | Next_objection "pystr list"
  | Score_response "pystr list"

record env =
  kickoff :: "crew \<Rightarrow> exn + crew_result"
  utcnow_isoformat :: pystr
  download_button_raises :: "pystr \<Rightarrow> bool"
  slides_button :: bool
  brief_to_pptx :: "pystr \<Rightarrow> pystr \<Rightarrow> exn + byte list"
  fs_mkdir_error :: "exn option"
  fs_write_text :: write_outcome

text \<open>
  How a handler ends: it runs to its end, an exception leaves it uncaught (Streamlit shows
  it and stops the run), or \<^verbatim>\<open>st.experimental_rerun()\<close> restarts the script.
\<close>

datatype outcome = Done | Raised exn | Rerun

text \<open>\<^verbatim>\<open>st.download_button\<close> inside \<^verbatim>\<open>try ... except Exception: pass\<close>.\<close>

definition download_button :: "env \<Rightarrow> pystr \<Rightarrow> world \<Rightarrow> world" where
  "download_button env label w =
     (if download_button_raises env label then w else emit (St_download_button label) w)"

subsection \<open>Prepare Meeting (lines 885-938)\<close>

text \<open>Lines 909-921: the nested slides button; \<^verbatim>\<open>_brief_to_pptx\<close> is called unguarded.\<close>

definition generate_slides :: "env \<Rightarrow> form \<Rightarrow> pystr \<Rightarrow> world \<Rightarrow> exn + world" where
  "generate_slides env fm result_text w =
     (if slides_button env then
        (case brief_to_pptx env result_text (lit ''Meeting Brief - '' @ company_name fm) of
           Inl exc \<Rightarrow> Inl exc
         | Inr pptx_bytes \<Rightarrow>
             if pptx_bytes \<noteq> [] then Inr (download_button env (lit ''Download slides'') w)
             else Inr (emit (St_warning (lit ''python-pptx not available. Please install dependencies to enable slide generation.'')) w))
      else Inr w)"

text \<open>Lines 923-938: build the entry, save it, select it, report.\<close>

definition archive_brief :: "env \<Rightarrow> form \<Rightarrow> document list \<Rightarrow> pystr \<Rightarrow> world \<Rightarrow> outcome \<times> world" where
  "archive_brief env fm supporting_documents result_text w =
     (let entry = \<lparr>timestamp = utcnow_isoformat env, company = company_name fm,
                    objective = meeting_objective fm, attendees = form.attendees fm,
                    focusAreas = focus_areas fm,
                    documents = map document.name supporting_documents, result = result_text\<rparr>
      in (case save_meeting_to_history (fs_mkdir_error env) (fs_write_text env) entry w of
            (Inl exc, w') \<Rightarrow> (Raised exc, w')
          | (Inr u, w') \<Rightarrow>
              (Done, emit (St_success (lit ''Meeting brief archived in your library.''))
                       (w'\<lparr>session := (session w')\<lparr>history_view := Some entry\<rparr>\<rparr>))))"

text \<open>
  The body under \<^verbatim>\<open>if st.button("Prepare Meeting")\<close>. The crew was built before, from the
  form. After \<^verbatim>\<open>except Exception\<close> the result is \<^verbatim>\<open>None\<close>, which \<^verbatim>\<open>if result:\<close> skips.
\<close>

definition prepare_meeting :: "env \<Rightarrow> crew \<Rightarrow> form \<Rightarrow> document list \<Rightarrow> world \<Rightarrow> outcome \<times> world" where
  "prepare_meeting env meeting_prep_crew fm supporting_documents w =
     (if company_name fm = [] \<or> meeting_objective fm = [] then
        (Done, emit (St_warning (lit ''Please provide both a company name and meeting objective before preparing the meeting.'')) w)
      else
        (case kickoff env meeting_prep_crew of
           Inl exc \<Rightarrow> (Done, emit (St_error (lit ''Error preparing meeting: '' @ str_exn exc)) w)
         | Inr res \<Rightarrow>
             if \<not> truthy res then (Done, w)
             else (case result_to_markdown res of
                     Inl exc \<Rightarrow> (Raised exc, w)
                   | Inr result_text \<Rightarrow>
                       (let w1 = emit (St_markdown result_text) w;
                            w2 = download_button env (lit ''Download meeting brief as .md'') w1
                        in (case generate_slides env fm result_text w2 of
                              Inl exc \<Rightarrow> (Raised exc, w2)
                            | Inr w3 \<Rightarrow> archive_brief env fm supporting_documents result_text w3)))))"

subsection \<open>Transcript summary (lines 678-735)\<close>

definition transcript_crew :: "form \<Rightarrow> pystr \<Rightarrow> crew" where
  "transcript_crew fm transcript_text =
     Transcript_summary [company_name fm, meeting_objective fm, form.attendees fm, focus_areas fm,
                         transcript_text]"

definition summarize_transcript :: "env \<Rightarrow> form \<Rightarrow> pystr \<Rightarrow> bool \<Rightarrow> world \<Rightarrow> outcome \<times> world" where
  "summarize_transcript env fm transcript_text save_to_library w =
     (if strip transcript_text = [] then (Done, w)
      else
        (case kickoff env (transcript_crew fm transcript_text) of
           Inl exc \<Rightarrow> (Done, emit (St_error (lit ''Error summarizing transcript: '' @ str_exn exc)) w)
         | Inr tx_result \<Rightarrow>
             if \<not> truthy tx_result then (Done, w)
             else (case result_to_markdown tx_result of
                     Inl exc \<Rightarrow> (Raised exc, w)
                   | Inr tx_text \<Rightarrow>
                       (let w1 = emit (St_markdown tx_text) w;
                            w2 = download_button env (lit ''Download transcript summary'') w1
                        in if save_to_library then
                             (let entry = \<lparr>timestamp = utcnow_isoformat env, company = company_name fm,
                                            objective = meeting_objective fm @ lit '' (Transcript Summary)'',
                                            attendees = form.attendees fm, focusAreas = focus_areas fm,
                                            documents = [], result = tx_text\<rparr>
                              in (case save_meeting_to_history (fs_mkdir_error env) (fs_write_text env) entry w2 of
                                    (Inl exc, w') \<Rightarrow> (Raised exc, w')
                                  | (Inr u, w') \<Rightarrow>
                                      (Done, emit (St_success (lit ''Transcript summary saved to library.'')) w')))
                           else (Done, w2)))))"

subsection \<open>Practice mode (lines 941-1032)\<close>

text \<open>
  Lines 942-943 create the key \<^verbatim>\<open>practice_history\<close> when it is absent; the handlers index
  the session state with it, which raises \<^verbatim>\<open>KeyError\<close> for an absent key. The practice
  log of a prompt is the last 10 formatted turns, joined by line feeds.
\<close>

definition init_practice_history :: "world \<Rightarrow> world" where
  "init_practice_history w =
     (case practice_history (session w) of
        None \<Rightarrow> w\<lparr>session := (session w)\<lparr>practice_history := Some []\<rparr>\<rparr>
      | Some turns \<Rightarrow> w)"

definition format_turn :: "turn \<Rightarrow> pystr" where
  "format_turn t = role t @ lit '': '' @ turn.content t"

definition practice_log :: "turn list \<Rightarrow> pystr" where
  "practice_log turns = join [10] (slice_last 10 (map format_turn turns))"

definition set_practice_history :: "turn list \<Rightarrow> world \<Rightarrow> world" where
  "set_practice_history turns w = w\<lparr>session := (session w)\<lparr>practice_history := Some turns\<rparr>\<rparr>"

definition objection_crew :: "form \<Rightarrow> turn list \<Rightarrow> crew" where
  "objection_crew fm turns =
     Next_objection [company_name fm, meeting_objective fm, form.attendees fm, focus_areas fm,
                     practice_log turns]"

definition scoring_crew :: "form \<Rightarrow> turn list \<Rightarrow> pystr \<Rightarrow> crew" where
  "scoring_crew fm turns user_resp =
     Score_response [company_name fm, meeting_objective fm, focus_areas fm, practice_log turns,
                     user_resp]"

text \<open>Ask next objection (lines 967-997): the coach's turn is appended after a result.\<close>

definition ask_next_objection :: "env \<Rightarrow> form \<Rightarrow> world \<Rightarrow> outcome \<times> world" where
  "ask_next_objection env fm w =
     (case practice_history (session w) of
        None \<Rightarrow> (Raised (Exception (lit ''KeyError'')), w)
      | Some turns \<Rightarrow>
          (case kickoff env (objection_crew fm turns) of
             Inl exc \<Rightarrow> (Done, emit (St_error (lit ''Error generating objection: '' @ str_exn exc)) w)
           | Inr obj_res \<Rightarrow>
               if \<not> truthy obj_res then (Done, w)
               else (case result_to_markdown obj_res of
                       Inl exc \<Rightarrow> (Raised exc, w)
                     | Inr objection \<Rightarrow>
                         (Rerun, set_practice_history (turns @ [\<lparr>role = lit ''coach'', turn.content = objection\<rparr>]) w))))"

text \<open>
  Score my response (lines 1000-1032), under \<^verbatim>\<open>if score_it and user_resp.strip()\<close>: the
  user's turn is appended first (line 1001), before the crew runs.
\<close>

definition score_my_response :: "env \<Rightarrow> form \<Rightarrow> pystr \<Rightarrow> world \<Rightarrow> outcome \<times> world" where
  "score_my_response env fm user_resp w =
     (if strip user_resp = [] then (Done, w)
      else
        (case practice_history (session w) of
           None \<Rightarrow> (Raised (Exception (lit ''KeyError'')), w)
         | Some turns \<Rightarrow>
             (let turns1 = turns @ [\<lparr>role = lit ''you'', turn.content = user_resp\<rparr>];
                  w1 = set_practice_history turns1 w
              in case kickoff env (scoring_crew fm turns1 user_resp) of
                   Inl exc \<Rightarrow> (Done, emit (St_error (lit ''Error scoring response: '' @ str_exn exc)) w1)
                 | Inr score_res \<Rightarrow>
                     if \<not> truthy score_res then (Done, w1)
                     else (case result_to_markdown score_res of
                             Inl exc \<Rightarrow> (Raised exc, w1)
                           | Inr feedback \<Rightarrow>
                               (Rerun, set_practice_history (turns1 @ [\<lparr>role = lit ''coach'', turn.content = feedback\<rparr>]) w1)))))"

section \<open>Sample inputs\<close>

text \<open>
  Concrete values the witnesses below are evaluated at: a session right after start-up
  (lines 400-403 and 942-943) with an empty library and no file, the form of a renewal
  meeting, numbered history entries, 21 appends whose writes succeed, result objects, and
  answers of the outside world in which the backend or the disk fails.
\<close>

definition ready_world :: world where
  "ready_world =
     \<lparr>session = \<lparr>meeting_history = Some [], history_view = None, practice_history = Some [],
                  truncate_chars = Some 6000\<rparr>,
      history_file = Missing, screen = []\<rparr>"

definition sample_form :: form where
  "sample_form =
     \<lparr>company_name = lit ''Acme Corp'', meeting_objective = lit ''Renewal negotiation'',
      attendees = lit ''CFO'', focus_areas = lit ''pricing''\<rparr>"

definition numbered_entry :: "nat \<Rightarrow> history_entry" where
  "numbered_entry n =
     \<lparr>timestamp = [n], company = lit ''Acme Corp'', objective = lit ''Renewal negotiation'',
      attendees = lit ''CFO'', focusAreas = lit ''pricing'', documents = [], result = lit ''brief''\<rparr>"

definition sample_calls :: "(exn option \<times> write_outcome \<times> history_entry) list" where
  "sample_calls = map (\<lambda>n. (None, Written, numbered_entry n)) [1..<22]"

definition raw_only_object :: "pystr \<Rightarrow> pyobject" where
  "raw_only_object s =
     \<lparr>attrs = (\<lambda>a. if a = ''raw'' then Holds (PStr s) else Absent),
      str_of = Inr (lit ''<result>''), truth = True\<rparr>"

definition raising_export_object :: pyobject where
  "raising_export_object =
     \<lparr>attrs = (\<lambda>a. if a = ''to_dict'' then Raising (Exception (lit ''RuntimeError'')) else Absent),
      str_of = Inr (lit ''<result>''), truth = True\<rparr>"

definition no_pdf :: pdf_reader where
  "no_pdf file_bytes = Inl (Exception (lit ''not a PDF''))"

definition backend_down :: env where
  "backend_down =
     \<lparr>kickoff = (\<lambda>c. Inl (Exception (lit ''backend unreachable''))),
      utcnow_isoformat = lit ''2025-01-01T00:00:00'',
      download_button_raises = (\<lambda>label. False), slides_button = False,
      brief_to_pptx = (\<lambda>t title. Inr []), fs_mkdir_error = None, fs_write_text = Written\<rparr>"

definition disk_full :: env where
  "disk_full =
     \<lparr>kickoff = (\<lambda>c. Inr (Str (lit ''brief''))),
      utcnow_isoformat = lit ''2025-01-01T00:00:00'',
      download_button_raises = (\<lambda>label. False), slides_button = False,
      brief_to_pptx = (\<lambda>t title. Inr []), fs_mkdir_error = None,
      fs_write_text = Write_fails (Exception (lit ''OSError'')) Missing\<rparr>"

section \<open>Truncation: properties\<close>

lemma slice_to_nonneg: "0 \<le> k \<Longrightarrow> slice_to xs k = take (nat k) xs"
  by (simp add: slice_to_def)

lemma length_lit: "length (lit s) = length s"
  by (simp add: lit_def)

lemma length_truncation_marker: "length truncation_marker = 19"
  by (simp add: truncation_marker_def lit_def)

lemma truncate_text_within: "int (length T) \<le> B \<Longrightarrow> truncate_text T B = T"
  by (simp add: truncate_text_def)

lemma truncate_text_beyond:
  "0 \<le> B \<Longrightarrow> B < int (length T) \<Longrightarrow> truncate_text T B = take (nat B) T @ truncation_marker"
  by (simp add: truncate_text_def slice_to_nonneg)

lemma take_append_same_iff: "take n xs @ m = xs \<longleftrightarrow> drop n xs = m"
proof
  assume "take n xs @ m = xs"
  then show "drop n xs = m" by (metis append_take_drop_id same_append_eq)
next
  assume "drop n xs = m"
  then show "take n xs @ m = xs" by auto
qed

text \<open>
  Claim C2, as the code has it. \<open>truncate_text\<close> is a function of its two arguments alone
  (pure and deterministic). A text within the budget comes back as it is. For a budget
  \<open>B \<ge> 0\<close> below the length, the result is exactly the first \<open>B\<close> characters of the text
  followed by the marker, \<open>B + 19\<close> characters long. The result equals the text exactly
  when the text is within the budget or already consists of its first \<open>B\<close> characters
  followed by the marker.
\<close>

theorem truncate_text_contract:
  "(int (length T) \<le> B \<longrightarrow> truncate_text T B = T) \<and>
   (0 \<le> B \<and> B < int (length T) \<longrightarrow>
      truncate_text T B = take (nat B) T @ truncation_marker \<and>
      int (length (truncate_text T B)) = B + int (length truncation_marker)) \<and>
   (0 \<le> B \<longrightarrow>
      (truncate_text T B = T \<longleftrightarrow> int (length T) \<le> B \<or> drop (nat B) T = truncation_marker))"
proof (intro conjI impI)
  assume "int (length T) \<le> B"
  then show "truncate_text T B = T" by (rule truncate_text_within)
next
  assume h: "0 \<le> B \<and> B < int (length T)"
  then show "truncate_text T B = take (nat B) T @ truncation_marker"
    by (simp add: truncate_text_beyond)
  from h have eq: "truncate_text T B = take (nat B) T @ truncation_marker"
    by (simp add: truncate_text_beyond)
  from h have "min (length T) (nat B) = nat B" by linarith
  with h eq show "int (length (truncate_text T B)) = B + int (length truncation_marker)"
    by simp
next
  assume nonneg: "0 \<le> B"
  show "truncate_text T B = T \<longleftrightarrow> int (length T) \<le> B \<or> drop (nat B) T = truncation_marker"
  proof (cases "int (length T) \<le> B")
    case True
    then show ?thesis by (simp add: truncate_text_within)
  next
    case False
    with nonneg have "truncate_text T B = take (nat B) T @ truncation_marker"
      by (simp add: truncate_text_beyond)
    with False show ?thesis by (simp add: take_append_same_iff)
  qed
qed

theorem truncate_text_contract_witness:
  "truncate_text (lit ''abcdef'') 3 = lit ''abc'' @ truncation_marker \<and>
   int (length (truncate_text (lit ''abcdef'') 3)) = 22 \<and>
   truncate_text (lit ''ab'') 3 = lit ''ab'' \<and>
   truncate_text (lit ''abcdef'') 3 \<noteq> lit ''abcdef''"
  using truncate_text_contract [of "lit ''abcdef''" 3] truncate_text_contract [of "lit ''ab''" 3]
  by (simp add: lit_def truncation_marker_def)

text \<open>
  The claim's ``unchanged if and only if within budget'' fails for a text that ends in the
  marker right after its first \<open>B\<close> characters: the text of 22 characters below comes back
  unchanged for the budget 3. A negative budget, which the slice \<^verbatim>\<open>value[:max_chars]\<close>
  counts from the end, gives a length other than budget plus marker.
\<close>

theorem truncate_text_counterexample:
  "truncate_text (lit ''abc'' @ truncation_marker) 3 = lit ''abc'' @ truncation_marker \<and>
   \<not> int (length (lit ''abc'' @ truncation_marker)) \<le> 3 \<and>
   truncate_text (lit ''abc'') (- 1) = lit ''ab'' @ truncation_marker \<and>
   int (length (truncate_text (lit ''abc'') (- 1))) \<noteq> - 1 + int (length truncation_marker)"
  by (simp add: truncate_text_def slice_to_def lit_def truncation_marker_def)

section \<open>The history store: properties\<close>

lemma read_history_file_cases:
  "read_history_file Missing = Inr (Entry_list [])"
  "read_history_file (Present (Inl exc)) = Inr (Entry_list [])"
  "read_history_file (Present (Inr Garbage)) = Inr (Entry_list [])"
  "read_history_file (Present (Inr (Json es))) = Inr (Entry_list es)"
  "read_history_file (Present (Inr (Json_of_other_shape v))) = Inr (Other_value v)"
  "read_history_file (Inaccessible exc) = Inl exc"
  by (simp_all add: read_history_file_def file_exists_def read_text_def json_loads_def)

text \<open>
  Claim C6 at two states of the persisted file. When the data directory may not be
  searched, \<^verbatim>\<open>HISTORY_FILE.exists()\<close> raises \<^verbatim>\<open>PermissionError\<close> at line 22, before the
  \<^verbatim>\<open>try\<close>, and the exception leaves \<^verbatim>\<open>_read_history_file\<close>; the sibling
  \<^verbatim>\<open>_clear_history\<close>, which has \<^verbatim>\<open>exists()\<close> inside its \<^verbatim>\<open>try\<close>, ends normally in the same
  state. When the file holds the well-formed JSON text \<^verbatim>\<open>null\<close>, the function returns
  that value, which is no list. For a missing file, a file whose read raises and text
  that is not JSON, it returns the empty list, and for the JSON of a list that list.
\<close>

theorem read_history_file_escapes:
  "read_history_file (Inaccessible (Exception (lit ''PermissionError''))) =
     Inl (Exception (lit ''PermissionError'')) \<and>
   history_file (clear_history None
       (ready_world\<lparr>history_file := Inaccessible (Exception (lit ''PermissionError''))\<rparr>)) =
     Inaccessible (Exception (lit ''PermissionError'')) \<and>
   read_history_file (Present (Inr (Json_of_other_shape (lit ''null'')))) =
     Inr (Other_value (lit ''null'')) \<and>
   read_history_file (Present (Inr (Json_of_other_shape (lit ''null'')))) \<noteq> Inr (Entry_list []) \<and>
   read_history_file Missing = Inr (Entry_list []) \<and>
   read_history_file (Present (Inl (Exception (lit ''OSError'')))) = Inr (Entry_list []) \<and>
   read_history_file (Present (Inr Garbage)) = Inr (Entry_list []) \<and>
   read_history_file (Present (Inr (Json [numbered_entry 1]))) = Inr (Entry_list [numbered_entry 1])"
  by (simp add: read_history_file_def file_exists_def read_text_def json_loads_def clear_history_def)

lemma take_append_take: "take n (xs @ take n ys) = take n (xs @ ys)"
  by (simp add: min_def)

lemma save_memory:
  "get_meeting_history (session (snd (save_meeting_to_history m wt e w))) =
     take 20 (e # get_meeting_history (session w))"
  by (simp add: save_meeting_to_history_def Let_def slice_to_def get_meeting_history_def split: prod.splits)

lemma appends_memory:
  "get_meeting_history (session (appends calls w)) =
     (if calls = [] then get_meeting_history (session w)
      else take 20 (rev (map entry_of calls) @ get_meeting_history (session w)))"
proof (induction calls arbitrary: w)
  case Nil
  show ?case by simp
next
  case (Cons c calls)
  obtain m wt e where c: "c = (m, wt, e)" by (cases c)
  show ?case
  proof (cases "calls = []")
    case True
    then show ?thesis by (simp add: c save_memory)
  next
    case False
    then have "get_meeting_history (session (appends (c # calls) w)) =
        take 20 (rev (map entry_of calls) @ take 20 (e # get_meeting_history (session w)))"
      by (simp add: c Cons.IH save_memory)
    also have "\<dots> = take 20 (rev (map entry_of calls) @ e # get_meeting_history (session w))"
      by (rule take_append_take)
    finally show ?thesis by (simp add: c)
  qed
qed

lemma appends_append: "appends (cs @ ds) w = appends ds (appends cs w)"
  by (induction cs arbitrary: w) auto

lemma save_written:
  "history_file (snd (save_meeting_to_history None Written e w)) =
     Present (Inr (Json (get_meeting_history (session (snd (save_meeting_to_history None Written e w))))))"
  by (simp add: save_meeting_to_history_def Let_def write_history_file_def get_meeting_history_def)

lemma distinct_early_absent:
  assumes "distinct xs" "i < k" "k \<le> length xs"
  shows "xs ! i \<notin> set (drop k xs)"
proof -
  have "distinct (take k xs @ drop k xs)" using assms(1) by simp
  then have "set (take k xs) \<inter> set (drop k xs) = {}" by (simp only: distinct_append)
  moreover have "xs ! i \<in> set (take k xs)"
    using assms(2,3) by (metis length_take min.absorb2 nth_mem nth_take)
  ultimately show ?thesis by blast
qed

text \<open>
  Claim C3: from a state of at most 20 entries, a sequence of append calls leaves the first
  20 of the appended entries, newest first, followed by the old ones; one call puts its
  entry at position 0 and keeps the first 20. After more than 20 calls the list has exactly
  20 entries, which are the entries of the last 20 calls, most recent first; the entry of
  each earlier call is then in no position of the list, so, the appended entries being
  pairwise different, it is not in the list. When the write of the last call succeeds, the
  file holds the same list.
\<close>

theorem history_appends_capped:
  assumes start: "length (get_meeting_history (session w)) \<le> 20"
  shows
  "get_meeting_history (session (appends calls w)) =
     take 20 (rev (map entry_of calls) @ get_meeting_history (session w)) \<and>
   (20 < length calls \<longrightarrow>
      length (get_meeting_history (session (appends calls w))) = 20 \<and>
      get_meeting_history (session (appends calls w)) =
        rev (drop (length calls - 20) (map entry_of calls)) \<and>
      (distinct (map entry_of calls) \<longrightarrow>
         (\<forall>i. i < length calls - 20 \<longrightarrow>
            entry_of (calls ! i) \<notin> set (get_meeting_history (session (appends calls w)))))) \<and>
   (calls \<noteq> [] \<and> fst (last calls) = None \<and> fst (snd (last calls)) = Written \<longrightarrow>
      history_file (appends calls w) =
        Present (Inr (Json (get_meeting_history (session (appends calls w))))))"
proof (intro conjI impI allI)
  show mem: "get_meeting_history (session (appends calls w)) =
     take 20 (rev (map entry_of calls) @ get_meeting_history (session w))"
    using start by (simp add: appends_memory)
  {
    assume long: "20 < length calls"
    then show len: "length (get_meeting_history (session (appends calls w))) = 20"
      by (simp add: mem)
    from long show last20: "get_meeting_history (session (appends calls w)) =
        rev (drop (length calls - 20) (map entry_of calls))"
      by (simp add: mem take_rev)
    fix i
    assume d: "distinct (map entry_of calls)" and i: "i < length calls - 20"
    have "map entry_of calls ! i \<notin> set (drop (length calls - 20) (map entry_of calls))"
      using d i by (intro distinct_early_absent) simp_all
    with i show "entry_of (calls ! i) \<notin> set (get_meeting_history (session (appends calls w)))"
      by (simp add: last20)
  }
  assume fin: "calls \<noteq> [] \<and> fst (last calls) = None \<and> fst (snd (last calls)) = Written"
  then obtain e where l: "last calls = (None, Written, e)"
    by (cases "last calls") auto
  from fin have "calls = butlast calls @ [(None, Written, e)]"
    using l by (metis append_butlast_last_id)
  then have "appends calls w = snd (save_meeting_to_history None Written e (appends (butlast calls) w))"
    by (metis appends.simps appends_append)
  then show "history_file (appends calls w) =
        Present (Inr (Json (get_meeting_history (session (appends calls w)))))"
    by (simp add: save_written)
qed

lemma inj_numbered_entry: "inj numbered_entry"
  by (auto simp: inj_def numbered_entry_def)

lemma entries_of_sample_calls: "map entry_of sample_calls = map numbered_entry [1..<22]"
  by (simp add: sample_calls_def comp_def)

theorem history_appends_capped_witness:
  "length (get_meeting_history (session (appends sample_calls ready_world))) = 20 \<and>
   numbered_entry 1 \<notin> set (get_meeting_history (session (appends sample_calls ready_world))) \<and>
   history_file (appends sample_calls ready_world) =
     Present (Inr (Json (get_meeting_history (session (appends sample_calls ready_world)))))"
proof -
  have start: "length (get_meeting_history (session ready_world)) \<le> 20"
    by (simp add: ready_world_def get_meeting_history_def)
  have len: "length sample_calls = 21" by (simp add: sample_calls_def)
  have dist: "distinct (map entry_of sample_calls)"
    unfolding entries_of_sample_calls
    by (simp add: distinct_map inj_on_subset [OF inj_numbered_entry])
  have lst: "sample_calls \<noteq> [] \<and> fst (last sample_calls) = None \<and> fst (snd (last sample_calls)) = Written"
    by (simp add: sample_calls_def last_map)
  have first: "entry_of (sample_calls ! 0) = numbered_entry 1"
    by (simp add: sample_calls_def)
  note th = history_appends_capped [OF start, of sample_calls]
  have big: "20 < length sample_calls" by (simp add: len)
  from th big have A: "length (get_meeting_history (session (appends sample_calls ready_world))) = 20"
    by blast
  from th big dist have "\<forall>i. i < length sample_calls - 20 \<longrightarrow>
      entry_of (sample_calls ! i) \<notin> set (get_meeting_history (session (appends sample_calls ready_world)))"
    by blast
  moreover have "0 < length sample_calls - 20" by (simp add: len)
  ultimately have "entry_of (sample_calls ! 0) \<notin> set (get_meeting_history (session (appends sample_calls ready_world)))"
    by blast
  with first have B: "numbered_entry 1 \<notin> set (get_meeting_history (session (appends sample_calls ready_world)))"
    by simp
  from th lst have C: "history_file (appends sample_calls ready_world) =
     Present (Inr (Json (get_meeting_history (session (appends sample_calls ready_world)))))"
    by blast
  from A B C show ?thesis by blast
qed

text \<open>
  Claim C10: when an append call completes (its write did not raise), the file holds
  exactly the list that the session holds, which is the first 20 entries of the new entry
  followed by the old list; it has at most 20 entries, and reading the file gives it back.
\<close>

theorem append_mirror:
  assumes "save_meeting_to_history m wt e w = (Inr u, w')"
  shows "history_file w' = Present (Inr (Json (get_meeting_history (session w')))) \<and>
         meeting_history (session w') = Some (take 20 (e # get_meeting_history (session w))) \<and>
         length (get_meeting_history (session w')) \<le> 20 \<and>
         read_history_file (history_file w') = Inr (Entry_list (get_meeting_history (session w')))"
  using assms
  by (auto simp: save_meeting_to_history_def Let_def write_history_file_def slice_to_def
      get_meeting_history_def read_history_file_def file_exists_def read_text_def json_loads_def
      split: option.splits write_outcome.splits)

theorem append_mirror_witness:
  "save_meeting_to_history None Written (numbered_entry 1) ready_world
     = (Inr (), snd (save_meeting_to_history None Written (numbered_entry 1) ready_world)) \<and>
   history_file (snd (save_meeting_to_history None Written (numbered_entry 1) ready_world))
     = Present (Inr (Json [numbered_entry 1])) \<and>
   meeting_history (session (snd (save_meeting_to_history None Written (numbered_entry 1) ready_world)))
     = Some [numbered_entry 1]"
proof -
  have run: "save_meeting_to_history None Written (numbered_entry 1) ready_world
     = (Inr (), snd (save_meeting_to_history None Written (numbered_entry 1) ready_world))"
    by (simp add: save_meeting_to_history_def Let_def write_history_file_def)
  have start: "get_meeting_history (session ready_world) = []"
    by (simp add: ready_world_def get_meeting_history_def)
  from append_mirror [OF run] start run show ?thesis
    by (simp add: get_meeting_history_def)
qed

section \<open>Result normalization: properties\<close>

lemma first_text_Cons:
  "first_text ob (a # rest) = (case field_text ob a of Some s \<Rightarrow> Some s | None \<Rightarrow> first_text ob rest)"
  by (simp add: field_text_def getattr_default_def Let_def split: attr.splits pyval.splits)

lemma first_text_known:
  "first_text ob known_fields =
     (case field_text ob ''raw'' of Some v \<Rightarrow> Some v | None \<Rightarrow>
      (case field_text ob ''final_output'' of Some v \<Rightarrow> Some v | None \<Rightarrow>
       (case field_text ob ''result'' of Some v \<Rightarrow> Some v | None \<Rightarrow> field_text ob ''output'')))"
  unfolding known_fields_def first_text_Cons
  by (simp split: option.splits)

lemma result_to_markdown_found:
  "first_text ob known_fields = Some v \<Longrightarrow> result_to_markdown (Obj ob) = Inr v"
  by (simp add: result_to_markdown_def)

lemma result_to_markdown_export:
  "first_text ob known_fields = None \<Longrightarrow> attrs ob ''to_dict'' = Holds (PCallable (Inr t)) \<Longrightarrow>
   result_to_markdown (Obj ob) = Inr t"
  by (simp add: result_to_markdown_def hasattr_def to_dict_dumps_def)

lemma result_to_markdown_fallback:
  "first_text ob known_fields = None \<Longrightarrow>
   attrs ob ''to_dict'' = Absent \<or> (\<exists>v. attrs ob ''to_dict'' = Holds v \<and> (\<forall>t. v \<noteq> PCallable (Inr t))) \<Longrightarrow>
   result_to_markdown (Obj ob) = Inr (str_fallback ob)"
  by (auto simp: result_to_markdown_def hasattr_def to_dict_dumps_def split: pyval.splits sum.splits)

lemma result_to_markdown_returns:
  "\<forall>e. attrs ob ''to_dict'' \<noteq> Raising e \<Longrightarrow> \<exists>t. result_to_markdown (Obj ob) = Inr t"
  by (auto simp: result_to_markdown_def hasattr_def split: option.splits attr.splits sum.splits bool.splits)

text \<open>
  Claim C4, as the code has it. A plain string is returned as it is. For an object the
  fields \<^verbatim>\<open>raw\<close>, \<^verbatim>\<open>final_output\<close>, \<^verbatim>\<open>result\<close>, \<^verbatim>\<open>output\<close> are tried in that order and
  the first that holds a string with a character other than whitespace is returned; a
  field that is absent, whose lookup raises, or that holds anything else, the empty string
  or a blank string is passed over. When no field matches and \<^verbatim>\<open>to_dict\<close> holds a callable
  whose export succeeds, the exported text is returned; when \<^verbatim>\<open>to_dict\<close> is absent or the
  export fails, the result is \<^verbatim>\<open>str(result)\<close>, and the empty string when that raises. For
  every object on which the lookup of \<^verbatim>\<open>to_dict\<close> does not itself raise, a string is
  returned and nothing is raised. An object whose \<^verbatim>\<open>raw\<close> field holds a text that is not
  blank normalizes to exactly that text.
\<close>

theorem result_to_markdown_contract:
  "result_to_markdown (Str s) = Inr s \<and>
   first_text ob known_fields =
     (case field_text ob ''raw'' of Some v \<Rightarrow> Some v | None \<Rightarrow>
      (case field_text ob ''final_output'' of Some v \<Rightarrow> Some v | None \<Rightarrow>
       (case field_text ob ''result'' of Some v \<Rightarrow> Some v | None \<Rightarrow> field_text ob ''output''))) \<and>
   (first_text ob known_fields = Some v \<longrightarrow> result_to_markdown (Obj ob) = Inr v) \<and>
   (first_text ob known_fields = None \<and> attrs ob ''to_dict'' = Holds (PCallable (Inr t)) \<longrightarrow>
      result_to_markdown (Obj ob) = Inr t) \<and>
   (first_text ob known_fields = None \<and>
    (attrs ob ''to_dict'' = Absent \<or> (\<exists>x. attrs ob ''to_dict'' = Holds x \<and> (\<forall>t. x \<noteq> PCallable (Inr t)))) \<longrightarrow>
      result_to_markdown (Obj ob) = Inr (case str_of ob of Inr r \<Rightarrow> r | Inl exc \<Rightarrow> [])) \<and>
   ((\<forall>e. attrs ob ''to_dict'' \<noteq> Raising e) \<longrightarrow> (\<exists>r. result_to_markdown (Obj ob) = Inr r)) \<and>
   (attrs ob ''raw'' = Holds (PStr u) \<and> strip u \<noteq> [] \<longrightarrow> result_to_markdown (Obj ob) = Inr u)"
proof (intro conjI impI)
  show "result_to_markdown (Str s) = Inr s" by (simp add: result_to_markdown_def)
  show "first_text ob known_fields =
     (case field_text ob ''raw'' of Some v \<Rightarrow> Some v | None \<Rightarrow>
      (case field_text ob ''final_output'' of Some v \<Rightarrow> Some v | None \<Rightarrow>
       (case field_text ob ''result'' of Some v \<Rightarrow> Some v | None \<Rightarrow> field_text ob ''output'')))"
    by (rule first_text_known)
  show "result_to_markdown (Obj ob) = Inr v" if "first_text ob known_fields = Some v"
    using that by (rule result_to_markdown_found)
  show "result_to_markdown (Obj ob) = Inr t"
    if "first_text ob known_fields = None \<and> attrs ob ''to_dict'' = Holds (PCallable (Inr t))"
    using that by (simp add: result_to_markdown_export)
  show "result_to_markdown (Obj ob) = Inr (case str_of ob of Inr r \<Rightarrow> r | Inl exc \<Rightarrow> [])"
    if "first_text ob known_fields = None \<and>
        (attrs ob ''to_dict'' = Absent \<or> (\<exists>x. attrs ob ''to_dict'' = Holds x \<and> (\<forall>t. x \<noteq> PCallable (Inr t))))"
    using that result_to_markdown_fallback [of ob] by (simp add: str_fallback_def)
  show "\<exists>r. result_to_markdown (Obj ob) = Inr r" if "\<forall>e. attrs ob ''to_dict'' \<noteq> Raising e"
    using that by (rule result_to_markdown_returns)
  show "result_to_markdown (Obj ob) = Inr u" if "attrs ob ''raw'' = Holds (PStr u) \<and> strip u \<noteq> []"
  proof -
    from that have "field_text ob ''raw'' = Some u" by (simp add: field_text_def)
    then have "first_text ob known_fields = Some u" by (simp add: first_text_known)
    then show ?thesis by (rule result_to_markdown_found)
  qed
qed

theorem result_to_markdown_contract_witness:
  "result_to_markdown (Obj (raw_only_object (lit ''ok''))) = Inr (lit ''ok'') \<and>
   (\<exists>r. result_to_markdown (Obj (raw_only_object [32])) = Inr r)"
proof -
  have a: "attrs (raw_only_object (lit ''ok'')) ''raw'' = Holds (PStr (lit ''ok'')) \<and> strip (lit ''ok'') \<noteq> []"
    by (simp add: raw_only_object_def strip_def lit_def isspace_def)
  have b: "\<forall>e. attrs (raw_only_object [32]) ''to_dict'' \<noteq> Raising e"
    by (simp add: raw_only_object_def)
  from a b show ?thesis
    using result_to_markdown_contract [of _ "raw_only_object (lit ''ok'')" _ _ "lit ''ok''"]
          result_to_markdown_contract [of _ "raw_only_object [32]"]
    by blast
qed

text \<open>
  The claim as stated fails twice. An object that exposes only \<^verbatim>\<open>raw\<close>, holding the
  non-empty text of one space, does not normalize to that text but to \<^verbatim>\<open>str(result)\<close>:
  line 45 asks for \<^verbatim>\<open>val.strip()\<close>. And an object whose \<^verbatim>\<open>to_dict\<close> lookup raises makes
  the function raise at line 48.
\<close>

theorem result_to_markdown_counterexample:
  "result_to_markdown (Obj (raw_only_object [32])) = Inr (lit ''<result>'') \<and>
   result_to_markdown (Obj (raw_only_object [32])) \<noteq> Inr [32] \<and>
   result_to_markdown (Obj raising_export_object) = Inl (Exception (lit ''RuntimeError''))"
  by (simp add: result_to_markdown_def known_fields_def raw_only_object_def raising_export_object_def
      getattr_default_def hasattr_def str_fallback_def strip_def isspace_def lit_def)

section \<open>Context assembly: properties\<close>

lemma context_directives_eq:
  "context_directives live reg notes =
     (if live then [directive_live] else []) @ (if reg then [directive_regulatory] else [])
     @ (if notes \<noteq> [] then [directive_notes] else [])"
  by (simp add: context_directives_def)

lemma join_Cons_prefix: "\<exists>rest. join sep (x # xs) = x @ rest"
  by (cases xs) auto

lemma bullets_not_fallback:
  assumes "ds \<noteq> []" "set ds \<subseteq> {directive_live, directive_regulatory, directive_notes}"
  shows "join [10] (map bullet ds) \<noteq> fallback_directive \<and> join [10] (map bullet ds) \<noteq> []"
proof -
  from assms(1) obtain d rest where ds: "ds = d # rest" by (cases ds) auto
  obtain r where r: "join [10] (map bullet ds) = bullet d @ r"
    using join_Cons_prefix [of "[10]" "bullet d" "map bullet rest"] by (auto simp: ds)
  from assms(2) ds have "d = directive_live \<or> d = directive_regulatory \<or> d = directive_notes" by auto
  then have "bullet d ! 2 \<noteq> fallback_directive ! 2 \<and> 2 < length (bullet d)"
    by (auto simp: bullet_def lit_def directive_live_def directive_regulatory_def directive_notes_def
        fallback_directive_def)
  then have "(bullet d @ r) ! 2 \<noteq> fallback_directive ! 2 \<and> bullet d @ r \<noteq> []"
    by (auto simp: nth_append)
  then show ?thesis unfolding r by auto
qed

lemma digest_without_documents:
  "build_document_digest st [] = lit ''No additional supporting documents were provided.''"
  by (simp add: build_document_digest_def)

lemma dash: "lit ''- '' = [45, 32]"
  by (simp add: lit_def)

lemma no_line_feed:
  "10 \<notin> set directive_live" "10 \<notin> set directive_regulatory" "10 \<notin> set directive_notes"
  by (simp_all add: directive_live_def directive_regulatory_def directive_notes_def lit_def)


text \<open>
  Claim C9: the directive list holds, in the fixed order live intelligence, regulatory
  emphasis, historical notes, exactly the directives whose toggle is on or whose notes
  are not empty, one each. The text is written out for each of the eight combinations:
  every active directive on a line of its own, behind a dash and a space, the lines
  separated by one line feed and in that order, so that the text of \<open>n\<close> active directives
  has \<open>n - 1\<close> line feeds; and the single line \<^verbatim>\<open>- Focus on actionable intelligence.\<close>
  when both toggles are off and no notes are supplied, which is the only case that gives
  this text.
\<close>

theorem context_directives_assembly:
  "context_directives live reg notes =
     (if live then [directive_live] else []) @ (if reg then [directive_regulatory] else [])
     @ (if notes \<noteq> [] then [directive_notes] else []) \<and>
   length (context_directives live reg notes) = of_bool live + of_bool reg + of_bool (notes \<noteq> []) \<and>
   context_directives_text live reg notes =
     (if live then
        (if reg then
           (if notes \<noteq> []
            then lit ''- '' @ directive_live @ [10] @ lit ''- '' @ directive_regulatory @ [10]
                 @ lit ''- '' @ directive_notes
            else lit ''- '' @ directive_live @ [10] @ lit ''- '' @ directive_regulatory)
         else
           (if notes \<noteq> []
            then lit ''- '' @ directive_live @ [10] @ lit ''- '' @ directive_notes
            else lit ''- '' @ directive_live))
      else
        (if reg then
           (if notes \<noteq> []
            then lit ''- '' @ directive_regulatory @ [10] @ lit ''- '' @ directive_notes
            else lit ''- '' @ directive_regulatory)
         else
           (if notes \<noteq> []
            then lit ''- '' @ directive_notes
            else lit ''- Focus on actionable intelligence.''))) \<and>
   count_list (context_directives_text live reg notes) 10 = length (context_directives live reg notes) - 1 \<and>
   (context_directives_text live reg notes = fallback_directive \<longleftrightarrow> \<not> live \<and> \<not> reg \<and> notes = [])"
proof -
  let ?ds = "context_directives live reg notes"
  have eq: "?ds = (if live then [directive_live] else []) @ (if reg then [directive_regulatory] else [])
     @ (if notes \<noteq> [] then [directive_notes] else [])"
    by (rule context_directives_eq)
  have len: "length ?ds = of_bool live + of_bool reg + of_bool (notes \<noteq> [])"
    by (simp add: eq)
  have sub: "set ?ds \<subseteq> {directive_live, directive_regulatory, directive_notes}"
    by (auto simp: eq)
  have none: "context_directives_text live reg notes = fallback_directive" if "?ds = []"
    using that by (simp add: context_directives_text_def)
  have some: "context_directives_text live reg notes = join [10] (map bullet ?ds) \<and>
              context_directives_text live reg notes \<noteq> fallback_directive" if "?ds \<noteq> []"
    using bullets_not_fallback [OF that sub] by (simp add: context_directives_text_def Let_def)
  have empty_iff: "?ds = [] \<longleftrightarrow> \<not> live \<and> \<not> reg \<and> notes = []"
    by (auto simp: eq)
  have rendered: "context_directives_text live reg notes =
     (if live then
        (if reg then
           (if notes \<noteq> []
            then lit ''- '' @ directive_live @ [10] @ lit ''- '' @ directive_regulatory @ [10]
                 @ lit ''- '' @ directive_notes
            else lit ''- '' @ directive_live @ [10] @ lit ''- '' @ directive_regulatory)
         else
           (if notes \<noteq> []
            then lit ''- '' @ directive_live @ [10] @ lit ''- '' @ directive_notes
            else lit ''- '' @ directive_live))
      else
        (if reg then
           (if notes \<noteq> []
            then lit ''- '' @ directive_regulatory @ [10] @ lit ''- '' @ directive_notes
            else lit ''- '' @ directive_regulatory)
         else
           (if notes \<noteq> []
            then lit ''- '' @ directive_notes
            else lit ''- Focus on actionable intelligence.'')))"
    by (simp add: context_directives_text_def eq bullet_def Let_def dash fallback_directive_def)
  have lines: "count_list (context_directives_text live reg notes) 10 = length ?ds - 1"
    unfolding rendered len
    by (simp add: dash count_notin no_line_feed lit_def)
  show ?thesis using eq len none some empty_iff rendered lines by blast
qed

theorem context_directives_assembly_witness:
  "context_directives_text True True (lit ''call notes'') =
     lit ''- Incorporate the most recent news, market movements, and growth signals discovered via live search.''
     @ [10] @
     lit ''- Highlight regulatory, compliance, and localization considerations that could influence the meeting.''
     @ [10] @
     lit ''- Bridge insights with the historical notes provided to emphasize continuity and momentum.'' \<and>
   context_directives_text True False [] =
     lit ''- Incorporate the most recent news, market movements, and growth signals discovered via live search.'' \<and>
   context_directives_text False False [] = lit ''- Focus on actionable intelligence.'' \<and>
   context_directives True True (lit ''call notes'') = [directive_live, directive_regulatory, directive_notes]"
  using context_directives_assembly [of True True "lit ''call notes''"]
        context_directives_assembly [of True False "[]"]
        context_directives_assembly [of False False "[]"]
  by (simp add: lit_def directive_live_def directive_regulatory_def directive_notes_def)

section \<open>Document ingestion: properties\<close>

lemma extract_loop_text_files:
  assumes "\<forall>u\<in>set fs. \<not> is_pdf_name (uploaded_file.name u)"
  shows "extract_loop reader fs docs warnings =
           (docs @ map as_document (filter (\<lambda>u. getvalue u \<noteq> [] \<and> decoded_text u \<noteq> []) fs), warnings)"
  using assms
proof (induction fs arbitrary: docs)
  case Nil
  show ?case by simp
next
  case (Cons u fs)
  then show ?case
    by (simp add: Let_def decode_utf8_ignore_def decoded_text_def as_document_def)
qed

lemma extract_loop_text_step:
  assumes "\<not> is_pdf_name (uploaded_file.name u)"
  shows "extract_loop reader (u # rest) docs warnings =
           extract_loop reader rest
             (docs @ (if getvalue u \<noteq> [] \<and> decoded_text u \<noteq> [] then [as_document u] else []))
             warnings"
  using assms by (simp add: Let_def decode_utf8_ignore_def decoded_text_def as_document_def)

lemma utf8_ignore_invalid_start:
  assumes "(0x80 \<le> b \<and> b < 0xC2) \<or> 0xF5 \<le> b"
  shows "utf8_ignore (b # bs) = utf8_ignore bs"
proof -
  from assms have "\<not> b < 0x80 \<and> (b < 0xC2 \<or> (\<not> b < 0xE0 \<and> \<not> b < 0xF0 \<and> \<not> b < 0xF5))"
    by (auto simp: word_less_nat_alt word_le_nat_alt)
  then show ?thesis by auto
qed

lemma mod_offset: "k < m \<Longrightarrow> (q * m + k) mod m = (k::nat)"
  by simp

lemma mod_window:
  fixes n :: nat
  shows "192 \<le> n \<Longrightarrow> n < 224 \<Longrightarrow> n mod 32 = n - 192"
    and "128 \<le> n \<Longrightarrow> n < 192 \<Longrightarrow> n mod 64 = n - 128"
    and "224 \<le> n \<Longrightarrow> n < 240 \<Longrightarrow> n mod 16 = n - 224"
    and "240 \<le> n \<Longrightarrow> n < 248 \<Longrightarrow> n mod 8 = n - 240"
  using mod_offset [of "n - 192" 32 6] mod_offset [of "n - 128" 64 2]
        mod_offset [of "n - 224" 16 14] mod_offset [of "n - 240" 8 30]
  by simp_all

lemma utf8_ignore_ascii: "b < 0x80 \<Longrightarrow> utf8_ignore (b # rest) = unat b # utf8_ignore rest"
  by simp

lemma continuation_unat:
  "is_continuation c \<Longrightarrow> 128 \<le> unat c \<and> unat c < 192"
  by (auto simp: is_continuation_def word_le_nat_alt)

lemma utf8_ignore_two:
  assumes "0xC2 \<le> b" "b < 0xE0"
  shows "utf8_ignore [b] = []"
    and "is_continuation c \<Longrightarrow>
           utf8_ignore (b # c # rest) = ((unat b - 192) * 64 + (unat c - 128)) # utf8_ignore rest"
    and "\<not> is_continuation c \<Longrightarrow> utf8_ignore (b # c # rest) = utf8_ignore (c # rest)"
proof -
  from assms have lead: "\<not> b < 0x80" "\<not> b < 0xC2" "b < 0xE0" "192 \<le> unat b" "unat b < 224"
    by (auto simp: word_less_nat_alt word_le_nat_alt)
  show "utf8_ignore [b] = []" using lead by simp
  show "utf8_ignore (b # c # rest) = ((unat b - 192) * 64 + (unat c - 128)) # utf8_ignore rest"
    if "is_continuation c"
  proof -
    have v: "unat b mod 32 = unat b - 192" "unat c mod 64 = unat c - 128"
      using lead continuation_unat [OF that] by (simp_all add: mod_window)
    from lead(1-3) that show ?thesis
      by (subst utf8_ignore.simps(2)) (simp add: v del: utf8_ignore.simps)
  qed
  show "utf8_ignore (b # c # rest) = utf8_ignore (c # rest)" if "\<not> is_continuation c"
    using lead that by (subst utf8_ignore.simps(2)) (simp del: utf8_ignore.simps)
qed

lemma second_of_three_ranges:
  "second_of_three b c \<longleftrightarrow>
     (if b = 0xE0 then 0xA0 \<le> c \<and> c \<le> 0xBF
      else if b = 0xED then 0x80 \<le> c \<and> c \<le> 0x9F else 0x80 \<le> c \<and> c \<le> 0xBF)"
  by (auto simp: second_of_three_def is_continuation_def word_less_nat_alt word_le_nat_alt)

lemma second_of_four_ranges:
  "second_of_four b c \<longleftrightarrow>
     (if b = 0xF0 then 0x90 \<le> c \<and> c \<le> 0xBF
      else if b = 0xF4 then 0x80 \<le> c \<and> c \<le> 0x8F else 0x80 \<le> c \<and> c \<le> 0xBF)"
  by (auto simp: second_of_four_def is_continuation_def word_less_nat_alt word_le_nat_alt)

lemma second_unat:
  "second_of_three b c \<Longrightarrow> 128 \<le> unat c \<and> unat c < 192"
  "second_of_four b c \<Longrightarrow> 128 \<le> unat c \<and> unat c < 192"
  by (simp_all add: second_of_three_def second_of_four_def continuation_unat)

lemma utf8_ignore_three:
  assumes "0xE0 \<le> b" "b < 0xF0"
  shows "utf8_ignore [b] = []"
    and "\<not> second_of_three b c \<Longrightarrow> utf8_ignore (b # c # rest) = utf8_ignore (c # rest)"
    and "second_of_three b c \<Longrightarrow> utf8_ignore [b, c] = []"
    and "second_of_three b c \<Longrightarrow> is_continuation d \<Longrightarrow>
           utf8_ignore (b # c # d # rest) =
             ((unat b - 224) * 4096 + (unat c - 128) * 64 + (unat d - 128)) # utf8_ignore rest"
    and "second_of_three b c \<Longrightarrow> \<not> is_continuation d \<Longrightarrow>
           utf8_ignore (b # c # d # rest) = utf8_ignore (d # rest)"
proof -
  from assms have lead: "\<not> b < 0x80" "\<not> b < 0xC2" "\<not> b < 0xE0" "b < 0xF0"
      "224 \<le> unat b" "unat b < 240"
    by (auto simp: word_less_nat_alt word_le_nat_alt)
  show "utf8_ignore [b] = []" using lead by simp
  show "utf8_ignore (b # c # rest) = utf8_ignore (c # rest)" if "\<not> second_of_three b c"
    using lead that by (subst utf8_ignore.simps(2)) (simp del: utf8_ignore.simps)
  show "utf8_ignore [b, c] = []" if "second_of_three b c"
    using lead that by (subst utf8_ignore.simps(2)) (simp del: utf8_ignore.simps)
  show "utf8_ignore (b # c # d # rest) =
             ((unat b - 224) * 4096 + (unat c - 128) * 64 + (unat d - 128)) # utf8_ignore rest"
    if "second_of_three b c" "is_continuation d"
  proof -
    have v: "unat b mod 16 = unat b - 224" "unat c mod 64 = unat c - 128"
        "unat d mod 64 = unat d - 128"
      using lead second_unat(1) [OF that(1)] continuation_unat [OF that(2)]
      by (simp_all add: mod_window)
    from lead(1-4) that show ?thesis
      by (subst utf8_ignore.simps(2)) (simp add: v del: utf8_ignore.simps)
  qed
  show "utf8_ignore (b # c # d # rest) = utf8_ignore (d # rest)"
    if "second_of_three b c" "\<not> is_continuation d"
    using lead that by (subst utf8_ignore.simps(2)) (simp del: utf8_ignore.simps)
qed

lemma utf8_ignore_four:
  assumes "0xF0 \<le> b" "b < 0xF5"
  shows "utf8_ignore [b] = []"
    and "\<not> second_of_four b c \<Longrightarrow> utf8_ignore (b # c # rest) = utf8_ignore (c # rest)"
    and "second_of_four b c \<Longrightarrow> utf8_ignore [b, c] = []"
    and "second_of_four b c \<Longrightarrow> \<not> is_continuation d \<Longrightarrow>
           utf8_ignore (b # c # d # rest) = utf8_ignore (d # rest)"
    and "second_of_four b c \<Longrightarrow> is_continuation d \<Longrightarrow> utf8_ignore [b, c, d] = []"
    and "second_of_four b c \<Longrightarrow> is_continuation d \<Longrightarrow> is_continuation e \<Longrightarrow>
           utf8_ignore (b # c # d # e # rest) =
             ((unat b - 240) * 262144 + (unat c - 128) * 4096 + (unat d - 128) * 64 + (unat e - 128))
             # utf8_ignore rest"
    and "second_of_four b c \<Longrightarrow> is_continuation d \<Longrightarrow> \<not> is_continuation e \<Longrightarrow>
           utf8_ignore (b # c # d # e # rest) = utf8_ignore (e # rest)"
proof -
  from assms have lead: "\<not> b < 0x80" "\<not> b < 0xC2" "\<not> b < 0xE0" "\<not> b < 0xF0" "b < 0xF5"
      "240 \<le> unat b" "unat b < 248"
    by (auto simp: word_less_nat_alt word_le_nat_alt)
  show "utf8_ignore [b] = []" using lead by simp
  show "utf8_ignore (b # c # rest) = utf8_ignore (c # rest)" if "\<not> second_of_four b c"
    using lead that by (subst utf8_ignore.simps(2)) (simp del: utf8_ignore.simps)
  show "utf8_ignore [b, c] = []" if "second_of_four b c"
    using lead that by (subst utf8_ignore.simps(2)) (simp del: utf8_ignore.simps)
  show "utf8_ignore (b # c # d # rest) = utf8_ignore (d # rest)"
    if "second_of_four b c" "\<not> is_continuation d"
    using lead that by (subst utf8_ignore.simps(2)) (simp del: utf8_ignore.simps)
  show "utf8_ignore [b, c, d] = []" if "second_of_four b c" "is_continuation d"
    using lead that by (subst utf8_ignore.simps(2)) (simp del: utf8_ignore.simps)
  show "utf8_ignore (b # c # d # e # rest) =
             ((unat b - 240) * 262144 + (unat c - 128) * 4096 + (unat d - 128) * 64 + (unat e - 128))
             # utf8_ignore rest"
    if "second_of_four b c" "is_continuation d" "is_continuation e"
  proof -
    have v: "unat b mod 8 = unat b - 240" "unat c mod 64 = unat c - 128"
        "unat d mod 64 = unat d - 128" "unat e mod 64 = unat e - 128"
      using lead second_unat(2) [OF that(1)] continuation_unat [OF that(2)]
        continuation_unat [OF that(3)]
      by (simp_all add: mod_window)
    from lead(1-5) that show ?thesis
      by (subst utf8_ignore.simps(2)) (simp add: v del: utf8_ignore.simps)
  qed
  show "utf8_ignore (b # c # d # e # rest) = utf8_ignore (e # rest)"
    if "second_of_four b c" "is_continuation d" "\<not> is_continuation e"
    using lead that by (subst utf8_ignore.simps(2)) (simp del: utf8_ignore.simps)
qed



lemma if_casesI: "(P \<Longrightarrow> A) \<Longrightarrow> (\<not> P \<Longrightarrow> B) \<Longrightarrow> (if P then A else B)"
  by simp

lemma continuation_range: "(0x80 \<le> c \<and> c \<le> 0xBF) = is_continuation c"
  by (simp add: is_continuation_def)

lemma utf8_ignore_lead_alone:
  assumes "0xC2 \<le> b" "b < 0xF5"
  shows "utf8_ignore [b] = []"
proof -
  from assms have "\<not> b < 0x80" "\<not> b < 0xC2"
    by (auto simp: word_less_nat_alt word_le_nat_alt)
  then show ?thesis by simp
qed


text \<open>
  Claim C5, as the code has it. A file whose lowered name does not end in \<^verbatim>\<open>.pdf\<close> is
  decoded as UTF-8 with \<^verbatim>\<open>errors="ignore"\<close>, and the call returns a string for every
  bytes value. Byte by byte: an ASCII byte gives its code point; a byte that cannot start a
  sequence (\<open>0x80\<close> to \<open>0xC1\<close>, \<open>0xF5\<close> and above) is dropped; a lead byte at the end of
  the input is dropped; a well-formed sequence of two, three or four bytes gives its one
  code point; a sequence broken by a byte that cannot continue it loses the bytes read so
  far, and decoding goes on at the offending byte; a sequence cut off by the end of the
  input is dropped. Nothing is put in the place of what is dropped. For files that all
  take this branch no warning is shown and the loop runs to its end; the documents are, in
  input order, the files that are not empty and whose decoded, stripped text is not empty,
  each with that text. At any place of any list of uploads, such a file adds no warning
  and the loop goes on with the files after it, having kept the file exactly when it is
  not empty and its decoded, stripped text is not empty.
\<close>

theorem text_files_ingested:
  "decode_utf8_ignore bs = Inr (utf8_ignore bs) \<and>
   utf8_ignore [] = [] \<and>
   (b < 0x80 \<longrightarrow> utf8_ignore (b # rest) = unat b # utf8_ignore rest) \<and>
   ((0x80 \<le> b \<and> b < 0xC2) \<or> 0xF5 \<le> b \<longrightarrow> utf8_ignore (b # rest) = utf8_ignore rest) \<and>
   (0xC2 \<le> b \<and> b < 0xF5 \<longrightarrow> utf8_ignore [b] = []) \<and>
   (0xC2 \<le> b \<and> b < 0xE0 \<longrightarrow>
      (if 0x80 \<le> c \<and> c \<le> 0xBF
       then utf8_ignore (b # c # rest) = ((unat b - 192) * 64 + (unat c - 128)) # utf8_ignore rest
       else utf8_ignore (b # c # rest) = utf8_ignore (c # rest))) \<and>
   (0xE0 \<le> b \<and> b < 0xF0 \<longrightarrow>
      (if (if b = 0xE0 then 0xA0 \<le> c \<and> c \<le> 0xBF
           else if b = 0xED then 0x80 \<le> c \<and> c \<le> 0x9F else 0x80 \<le> c \<and> c \<le> 0xBF)
       then utf8_ignore [b, c] = [] \<and>
            (if 0x80 \<le> d \<and> d \<le> 0xBF
             then utf8_ignore (b # c # d # rest) =
                    ((unat b - 224) * 4096 + (unat c - 128) * 64 + (unat d - 128)) # utf8_ignore rest
             else utf8_ignore (b # c # d # rest) = utf8_ignore (d # rest))
       else utf8_ignore (b # c # rest) = utf8_ignore (c # rest))) \<and>
   (0xF0 \<le> b \<and> b < 0xF5 \<longrightarrow>
      (if (if b = 0xF0 then 0x90 \<le> c \<and> c \<le> 0xBF
           else if b = 0xF4 then 0x80 \<le> c \<and> c \<le> 0x8F else 0x80 \<le> c \<and> c \<le> 0xBF)
       then utf8_ignore [b, c] = [] \<and>
            (if 0x80 \<le> d \<and> d \<le> 0xBF
             then utf8_ignore [b, c, d] = [] \<and>
                  (if 0x80 \<le> e \<and> e \<le> 0xBF
                   then utf8_ignore (b # c # d # e # rest) =
                          ((unat b - 240) * 262144 + (unat c - 128) * 4096 + (unat d - 128) * 64
                           + (unat e - 128)) # utf8_ignore rest
                   else utf8_ignore (b # c # d # e # rest) = utf8_ignore (e # rest))
             else utf8_ignore (b # c # d # rest) = utf8_ignore (d # rest))
       else utf8_ignore (b # c # rest) = utf8_ignore (c # rest))) \<and>
   ((\<forall>u\<in>set fs. \<not> is_pdf_name (uploaded_file.name u)) \<longrightarrow>
      extract_supporting_documents reader (Some fs) =
        (map as_document (filter (\<lambda>u. getvalue u \<noteq> [] \<and> decoded_text u \<noteq> []) fs), [])) \<and>
   (\<not> is_pdf_name (uploaded_file.name u) \<longrightarrow>
      extract_loop reader (u # files) docs warnings =
        extract_loop reader files
          (docs @ (if getvalue u \<noteq> [] \<and> decoded_text u \<noteq> [] then [as_document u] else []))
          warnings)"
proof (intro conjI impI)
  show "decode_utf8_ignore bs = Inr (utf8_ignore bs)" by (simp add: decode_utf8_ignore_def)
  show "utf8_ignore [] = []" by simp
  show "utf8_ignore (b # rest) = unat b # utf8_ignore rest" if "b < 0x80"
    using that by (rule utf8_ignore_ascii)
  show "utf8_ignore (b # rest) = utf8_ignore rest" if "(0x80 \<le> b \<and> b < 0xC2) \<or> 0xF5 \<le> b"
    using that by (rule utf8_ignore_invalid_start)
  show "utf8_ignore [b] = []" if "0xC2 \<le> b \<and> b < 0xF5"
  proof -
    from that have "0xC2 \<le> b" "b < 0xF5" by simp_all
    then show ?thesis by (rule utf8_ignore_lead_alone)
  qed
next
  assume "0xC2 \<le> b \<and> b < 0xE0"
  then have lead: "0xC2 \<le> b" "b < 0xE0" by simp_all
  show "if 0x80 \<le> c \<and> c \<le> 0xBF
       then utf8_ignore (b # c # rest) = ((unat b - 192) * 64 + (unat c - 128)) # utf8_ignore rest
       else utf8_ignore (b # c # rest) = utf8_ignore (c # rest)"
    unfolding continuation_range
    by (rule if_casesI) (rule utf8_ignore_two [OF lead]; assumption)+
next
  assume "0xE0 \<le> b \<and> b < 0xF0"
  then have lead: "0xE0 \<le> b" "b < 0xF0" by simp_all
  show "if (if b = 0xE0 then 0xA0 \<le> c \<and> c \<le> 0xBF
           else if b = 0xED then 0x80 \<le> c \<and> c \<le> 0x9F else 0x80 \<le> c \<and> c \<le> 0xBF)
       then utf8_ignore [b, c] = [] \<and>
            (if 0x80 \<le> d \<and> d \<le> 0xBF
             then utf8_ignore (b # c # d # rest) =
                    ((unat b - 224) * 4096 + (unat c - 128) * 64 + (unat d - 128)) # utf8_ignore rest
             else utf8_ignore (b # c # d # rest) = utf8_ignore (d # rest))
       else utf8_ignore (b # c # rest) = utf8_ignore (c # rest)"
    unfolding second_of_three_ranges [symmetric]
    unfolding continuation_range
  proof (rule if_casesI)
    assume s: "second_of_three b c"
    show "utf8_ignore [b, c] = [] \<and>
            (if is_continuation d
             then utf8_ignore (b # c # d # rest) =
                    ((unat b - 224) * 4096 + (unat c - 128) * 64 + (unat d - 128)) # utf8_ignore rest
             else utf8_ignore (b # c # d # rest) = utf8_ignore (d # rest))"
    proof (rule conjI)
      show "utf8_ignore [b, c] = []" using s by (rule utf8_ignore_three(3) [OF lead])
      show "if is_continuation d
            then utf8_ignore (b # c # d # rest) =
                   ((unat b - 224) * 4096 + (unat c - 128) * 64 + (unat d - 128)) # utf8_ignore rest
            else utf8_ignore (b # c # d # rest) = utf8_ignore (d # rest)"
      proof (rule if_casesI)
        assume "is_continuation d"
        with s show "utf8_ignore (b # c # d # rest) =
              ((unat b - 224) * 4096 + (unat c - 128) * 64 + (unat d - 128)) # utf8_ignore rest"
          by (rule utf8_ignore_three(4) [OF lead])
      next
        assume "\<not> is_continuation d"
        with s show "utf8_ignore (b # c # d # rest) = utf8_ignore (d # rest)"
          by (rule utf8_ignore_three(5) [OF lead])
      qed
    qed
  next
    assume "\<not> second_of_three b c"
    then show "utf8_ignore (b # c # rest) = utf8_ignore (c # rest)"
      by (rule utf8_ignore_three(2) [OF lead])
  qed
next
  assume "0xF0 \<le> b \<and> b < 0xF5"
  then have lead: "0xF0 \<le> b" "b < 0xF5" by simp_all
  show "if (if b = 0xF0 then 0x90 \<le> c \<and> c \<le> 0xBF
           else if b = 0xF4 then 0x80 \<le> c \<and> c \<le> 0x8F else 0x80 \<le> c \<and> c \<le> 0xBF)
       then utf8_ignore [b, c] = [] \<and>
            (if 0x80 \<le> d \<and> d \<le> 0xBF
             then utf8_ignore [b, c, d] = [] \<and>
                  (if 0x80 \<le> e \<and> e \<le> 0xBF
                   then utf8_ignore (b # c # d # e # rest) =
                          ((unat b - 240) * 262144 + (unat c - 128) * 4096 + (unat d - 128) * 64
                           + (unat e - 128)) # utf8_ignore rest
                   else utf8_ignore (b # c # d # e # rest) = utf8_ignore (e # rest))
             else utf8_ignore (b # c # d # rest) = utf8_ignore (d # rest))
       else utf8_ignore (b # c # rest) = utf8_ignore (c # rest)"
    unfolding second_of_four_ranges [symmetric]
    unfolding continuation_range
  proof (rule if_casesI)
    assume s: "second_of_four b c"
    show "utf8_ignore [b, c] = [] \<and>
            (if is_continuation d
             then utf8_ignore [b, c, d] = [] \<and>
                  (if is_continuation e
                   then utf8_ignore (b # c # d # e # rest) =
                          ((unat b - 240) * 262144 + (unat c - 128) * 4096 + (unat d - 128) * 64
                           + (unat e - 128)) # utf8_ignore rest
                   else utf8_ignore (b # c # d # e # rest) = utf8_ignore (e # rest))
             else utf8_ignore (b # c # d # rest) = utf8_ignore (d # rest))"
    proof (rule conjI)
      show "utf8_ignore [b, c] = []" using s by (rule utf8_ignore_four(3) [OF lead])
      show "if is_continuation d
             then utf8_ignore [b, c, d] = [] \<and>
                  (if is_continuation e
                   then utf8_ignore (b # c # d # e # rest) =
                          ((unat b - 240) * 262144 + (unat c - 128) * 4096 + (unat d - 128) * 64
                           + (unat e - 128)) # utf8_ignore rest
                   else utf8_ignore (b # c # d # e # rest) = utf8_ignore (e # rest))
             else utf8_ignore (b # c # d # rest) = utf8_ignore (d # rest)"
      proof (rule if_casesI)
        assume t: "is_continuation d"
        show "utf8_ignore [b, c, d] = [] \<and>
                  (if is_continuation e
                   then utf8_ignore (b # c # d # e # rest) =
                          ((unat b - 240) * 262144 + (unat c - 128) * 4096 + (unat d - 128) * 64
                           + (unat e - 128)) # utf8_ignore rest
                   else utf8_ignore (b # c # d # e # rest) = utf8_ignore (e # rest))"
        proof (rule conjI)
          from s t show "utf8_ignore [b, c, d] = []" by (rule utf8_ignore_four(5) [OF lead])
          show "if is_continuation e
                   then utf8_ignore (b # c # d # e # rest) =
                          ((unat b - 240) * 262144 + (unat c - 128) * 4096 + (unat d - 128) * 64
                           + (unat e - 128)) # utf8_ignore rest
                   else utf8_ignore (b # c # d # e # rest) = utf8_ignore (e # rest)"
          proof (rule if_casesI)
            assume "is_continuation e"
            with s t show "utf8_ignore (b # c # d # e # rest) =
                          ((unat b - 240) * 262144 + (unat c - 128) * 4096 + (unat d - 128) * 64
                           + (unat e - 128)) # utf8_ignore rest"
              by (rule utf8_ignore_four(6) [OF lead])
          next
            assume "\<not> is_continuation e"
            with s t show "utf8_ignore (b # c # d # e # rest) = utf8_ignore (e # rest)"
              by (rule utf8_ignore_four(7) [OF lead])
          qed
        qed
      next
        assume "\<not> is_continuation d"
        with s show "utf8_ignore (b # c # d # rest) = utf8_ignore (d # rest)"
          by (rule utf8_ignore_four(4) [OF lead])
      qed
    qed
  next
    assume "\<not> second_of_four b c"
    then show "utf8_ignore (b # c # rest) = utf8_ignore (c # rest)"
      by (rule utf8_ignore_four(2) [OF lead])
  qed
next
  show "extract_supporting_documents reader (Some fs) =
        (map as_document (filter (\<lambda>u. getvalue u \<noteq> [] \<and> decoded_text u \<noteq> []) fs), [])"
    if "\<forall>u\<in>set fs. \<not> is_pdf_name (uploaded_file.name u)"
    using extract_loop_text_files [OF that, of reader "[]" "[]"]
    by (simp add: extract_supporting_documents_def)
  show "extract_loop reader (u # files) docs warnings =
        extract_loop reader files
          (docs @ (if getvalue u \<noteq> [] \<and> decoded_text u \<noteq> [] then [as_document u] else []))
          warnings"
    if "\<not> is_pdf_name (uploaded_file.name u)"
    using that by (rule extract_loop_text_step)
qed


lemma notes_txt_not_pdf: "\<not> is_pdf_name (lit ''notes.txt'')"
  by (simp add: is_pdf_name_def endswith_def lower_def lower_char_def lit_def)

theorem text_files_ingested_witness:
  "extract_supporting_documents no_pdf
     (Some [\<lparr>uploaded_file.name = lit ''notes.txt'',
             getvalue = [0x68, 0xC3, 0xA9, 0xFF, 0x69, 0x0A, 0xC3]\<rparr>]) =
   ([\<lparr>document.name = lit ''notes.txt'', content = [104, 233, 105]\<rparr>], []) \<and>
   utf8_ignore [0x68, 0xC3, 0xA9] = [104, 233] \<and>
   utf8_ignore [0xE2, 0x82, 0xAC] = [8364] \<and>
   utf8_ignore [0xF0, 0x9F, 0x98, 0x80] = [128512] \<and>
   \<not> is_pdf_name (lit ''notes.txt'') \<and> is_pdf_name (lit ''Report.PDF'')"
proof -
  have names: "\<not> is_pdf_name (lit ''notes.txt'') \<and> is_pdf_name (lit ''Report.PDF'')"
    by (simp add: is_pdf_name_def endswith_def lower_def lower_char_def lit_def)
  let ?u = "\<lparr>uploaded_file.name = lit ''notes.txt'',
             getvalue = [0x68, 0xC3, 0xA9, 0xFF, 0x69, 0x0A, 0xC3]\<rparr>"
  have pdf: "\<forall>u\<in>set [?u]. \<not> is_pdf_name (uploaded_file.name u)"
    by (simp add: notes_txt_not_pdf)
  have dec: "decoded_text ?u = [104, 233, 105]"
    by (simp add: decoded_text_def strip_def isspace_def is_continuation_def)
  from text_files_ingested [of _ _ _ _ _ _ "[?u]" no_pdf] pdf
  have "extract_supporting_documents no_pdf (Some [?u]) =
        (map as_document (filter (\<lambda>u. getvalue u \<noteq> [] \<and> decoded_text u \<noteq> []) [?u]), [])"
    by blast
  then have files: "extract_supporting_documents no_pdf (Some [?u]) =
      ([\<lparr>document.name = lit ''notes.txt'', content = [104, 233, 105]\<rparr>], [])"
    by (simp add: dec as_document_def)
  have two: "utf8_ignore [0x68, 0xC3, 0xA9] = [104, 233]"
    using text_files_ingested [of "[]" "0xC3" "[]" "0xA9"]
          text_files_ingested [of "[]" "0x68" "[0xC3, 0xA9]"]
    by simp
  have three: "utf8_ignore [0xE2, 0x82, 0xAC] = [8364]"
    using text_files_ingested [of "[]" "0xE2" "[]" "0x82" "0xAC"] by simp
  have four: "utf8_ignore [0xF0, 0x9F, 0x98, 0x80] = [128512]"
    using text_files_ingested [of "[]" "0xF0" "[]" "0x9F" "0x98" "0x80"] by simp
  from files two three four names show ?thesis by blast
qed


text \<open>
  The claim as stated fails: a file that holds only undecodable bytes, or only a sequence
  that is cut off, decodes to the empty string and is skipped, without a warning; and
  undecodable bytes are removed, no replacement character (\<open>0xFFFD\<close>) takes their place,
  be it an invalid start byte or a lead byte that is not continued.
\<close>

theorem undecodable_bytes_counterexample:
  "extract_supporting_documents no_pdf
     (Some [\<lparr>uploaded_file.name = lit ''notes.txt'', getvalue = [0xFF, 0xFE]\<rparr>]) = ([], []) \<and>
   extract_supporting_documents no_pdf
     (Some [\<lparr>uploaded_file.name = lit ''notes.txt'', getvalue = [0xC3]\<rparr>]) = ([], []) \<and>
   extract_supporting_documents no_pdf
     (Some [\<lparr>uploaded_file.name = lit ''notes.txt'', getvalue = [0x61, 0xFF, 0x62]\<rparr>]) =
     ([\<lparr>document.name = lit ''notes.txt'', content = [0x61, 0x62]\<rparr>], []) \<and>
   extract_supporting_documents no_pdf
     (Some [\<lparr>uploaded_file.name = lit ''notes.txt'', getvalue = [0x61, 0xC3, 0x62]\<rparr>]) =
     ([\<lparr>document.name = lit ''notes.txt'', content = [0x61, 0x62]\<rparr>], [])"
  by (simp add: extract_supporting_documents_def Let_def notes_txt_not_pdf decode_utf8_ignore_def
      strip_def isspace_def is_continuation_def)

section \<open>The handlers: properties\<close>

lemma emit_fields:
  "session (emit e w) = session w" "history_file (emit e w) = history_file w"
  "screen (emit e w) = screen w @ [e]"
  by (simp_all add: emit_def)

lemma download_button_store:
  "session (download_button env label w) = session w"
  "history_file (download_button env label w) = history_file w"
  by (simp_all add: download_button_def emit_fields)

lemma set_practice_history_fields:
  "meeting_history (session (set_practice_history turns w)) = meeting_history (session w)"
  "practice_history (session (set_practice_history turns w)) = Some turns"
  "history_file (set_practice_history turns w) = history_file w"
  "screen (set_practice_history turns w) = screen w"
  by (simp_all add: set_practice_history_def)

lemma prepare_meeting_backend_error:
  assumes "company_name fm \<noteq> []" "meeting_objective fm \<noteq> []" "kickoff env crew = Inl exc"
  shows "prepare_meeting env crew fm docs w =
           (Done, emit (St_error (lit ''Error preparing meeting: '' @ str_exn exc)) w)"
  using assms by (simp add: prepare_meeting_def)

lemma prepare_meeting_store_changed:
  assumes "meeting_history (session (snd (prepare_meeting env crew fm docs w))) \<noteq> meeting_history (session w)
           \<or> history_file (snd (prepare_meeting env crew fm docs w)) \<noteq> history_file w"
  shows "\<exists>res t. kickoff env crew = Inr res \<and> truthy res \<and> result_to_markdown res = Inr t"
proof (cases "company_name fm = [] \<or> meeting_objective fm = []")
  case True
  with assms show ?thesis by (simp add: prepare_meeting_def emit_fields)
next
  case False
  show ?thesis
  proof (cases "kickoff env crew")
    case (Inl exc)
    with False assms show ?thesis by (simp add: prepare_meeting_def emit_fields)
  next
    case (Inr res)
    show ?thesis
    proof (cases "truthy res")
      case no: False
      with False Inr assms show ?thesis by (simp add: prepare_meeting_def)
    next
      case yes: True
      show ?thesis
      proof (cases "result_to_markdown res")
        case (Inl exc)
        with False Inr yes assms show ?thesis by (simp add: prepare_meeting_def)
      next
        case ok: (Inr t)
        with Inr yes show ?thesis by simp
      qed
    qed
  qed
qed

lemma summarize_transcript_store_changed:
  assumes "meeting_history (session (snd (summarize_transcript env fm tx save w))) \<noteq> meeting_history (session w)
           \<or> history_file (snd (summarize_transcript env fm tx save w)) \<noteq> history_file w"
  shows "\<exists>res t. kickoff env (transcript_crew fm tx) = Inr res \<and> truthy res \<and> result_to_markdown res = Inr t"
proof (cases "strip tx = []")
  case True
  with assms show ?thesis by (simp add: summarize_transcript_def)
next
  case False
  show ?thesis
  proof (cases "kickoff env (transcript_crew fm tx)")
    case (Inl exc)
    with False assms show ?thesis by (simp add: summarize_transcript_def emit_fields)
  next
    case (Inr res)
    show ?thesis
    proof (cases "truthy res")
      case no: False
      with False Inr assms show ?thesis by (simp add: summarize_transcript_def)
    next
      case yes: True
      show ?thesis
      proof (cases "result_to_markdown res")
        case (Inl exc)
        with False Inr yes assms show ?thesis by (simp add: summarize_transcript_def)
      next
        case ok: (Inr t)
        with Inr yes show ?thesis by simp
      qed
    qed
  qed
qed

text \<open>
  Claim C1: a pipeline run takes place when the company name and the objective are not
  empty. When \<^verbatim>\<open>kickoff()\<close> raises, which is how the failure of a task reaches the handler,
  the handler ends normally, shows exactly one message, the error, and no result text, and
  leaves the session state and the history file as they were. Conversely, whenever the
  in-memory history or the file differs after the handler, the run returned a result that
  is true and normalizes to a text; the same holds for the transcript summary, the only
  other caller of the append.
\<close>

theorem prepare_meeting_failure:
  assumes "company_name fm \<noteq> []" and "meeting_objective fm \<noteq> []"
  shows
  "(kickoff env crew = Inl exc \<longrightarrow>
      fst (prepare_meeting env crew fm docs w) = Done \<and>
      session (snd (prepare_meeting env crew fm docs w)) = session w \<and>
      history_file (snd (prepare_meeting env crew fm docs w)) = history_file w \<and>
      screen (snd (prepare_meeting env crew fm docs w)) =
        screen w @ [St_error (lit ''Error preparing meeting: '' @ str_exn exc)]) \<and>
   (meeting_history (session (snd (prepare_meeting env crew fm docs w))) \<noteq> meeting_history (session w)
    \<or> history_file (snd (prepare_meeting env crew fm docs w)) \<noteq> history_file w \<longrightarrow>
      (\<exists>res t. kickoff env crew = Inr res \<and> truthy res \<and> result_to_markdown res = Inr t)) \<and>
   (meeting_history (session (snd (summarize_transcript env fm tx save w))) \<noteq> meeting_history (session w)
    \<or> history_file (snd (summarize_transcript env fm tx save w)) \<noteq> history_file w \<longrightarrow>
      (\<exists>res t. kickoff env (transcript_crew fm tx) = Inr res \<and> truthy res \<and> result_to_markdown res = Inr t))"
proof (intro conjI impI)
  assume "kickoff env crew = Inl exc"
  with assms have run: "prepare_meeting env crew fm docs w =
      (Done, emit (St_error (lit ''Error preparing meeting: '' @ str_exn exc)) w)"
    by (rule prepare_meeting_backend_error)
  show "fst (prepare_meeting env crew fm docs w) = Done" by (simp add: run)
  show "session (snd (prepare_meeting env crew fm docs w)) = session w"
    by (simp add: run emit_fields)
  show "history_file (snd (prepare_meeting env crew fm docs w)) = history_file w"
    by (simp add: run emit_fields)
  show "screen (snd (prepare_meeting env crew fm docs w)) =
        screen w @ [St_error (lit ''Error preparing meeting: '' @ str_exn exc)]"
    by (simp add: run emit_fields)
next
  assume "meeting_history (session (snd (prepare_meeting env crew fm docs w))) \<noteq> meeting_history (session w)
    \<or> history_file (snd (prepare_meeting env crew fm docs w)) \<noteq> history_file w"
  then show "\<exists>res t. kickoff env crew = Inr res \<and> truthy res \<and> result_to_markdown res = Inr t"
    by (rule prepare_meeting_store_changed)
next
  assume "meeting_history (session (snd (summarize_transcript env fm tx save w))) \<noteq> meeting_history (session w)
    \<or> history_file (snd (summarize_transcript env fm tx save w)) \<noteq> history_file w"
  then show "\<exists>res t. kickoff env (transcript_crew fm tx) = Inr res \<and> truthy res \<and> result_to_markdown res = Inr t"
    by (rule summarize_transcript_store_changed)
qed

theorem prepare_meeting_failure_witness:
  "prepare_meeting backend_down (Meeting_prep []) sample_form [] ready_world =
     (Done, ready_world\<lparr>screen := [St_error (lit ''Error preparing meeting: backend unreachable'')]\<rparr>)"
proof -
  have f: "company_name sample_form \<noteq> []" "meeting_objective sample_form \<noteq> []"
    by (simp_all add: sample_form_def lit_def)
  have k: "kickoff backend_down (Meeting_prep []) = Inl (Exception (lit ''backend unreachable''))"
    by (simp add: backend_down_def)
  from prepare_meeting_failure [OF f, of backend_down "Meeting_prep []" "Exception (lit ''backend unreachable'')" "[]" ready_world] k
  have "fst (prepare_meeting backend_down (Meeting_prep []) sample_form [] ready_world) = Done \<and>
      session (snd (prepare_meeting backend_down (Meeting_prep []) sample_form [] ready_world)) = session ready_world \<and>
      history_file (snd (prepare_meeting backend_down (Meeting_prep []) sample_form [] ready_world)) = history_file ready_world \<and>
      screen (snd (prepare_meeting backend_down (Meeting_prep []) sample_form [] ready_world)) =
        screen ready_world @ [St_error (lit ''Error preparing meeting: '' @ str_exn (Exception (lit ''backend unreachable'')))]"
    by blast
  then show ?thesis
    by (cases "prepare_meeting backend_down (Meeting_prep []) sample_form [] ready_world")
       (simp add: ready_world_def lit_def world.equality)
qed

text \<open>
  Claim C7 at a failing write: the disk raises \<^verbatim>\<open>OSError\<close> in \<^verbatim>\<open>write_text\<close>. The
  exception leaves \<^verbatim>\<open>_save_meeting_to_history\<close> after the session list has been updated,
  the file is not written, and the exception leaves the Prepare Meeting handler uncaught.
  The read path, for comparison, answers an unreadable file with the empty list.
\<close>

theorem write_failure_escapes:
  "fst (save_meeting_to_history None (Write_fails (Exception (lit ''OSError'')) Missing)
          (numbered_entry 1) ready_world) = Inl (Exception (lit ''OSError'')) \<and>
   meeting_history (session (snd (save_meeting_to_history None (Write_fails (Exception (lit ''OSError'')) Missing)
          (numbered_entry 1) ready_world))) = Some [numbered_entry 1] \<and>
   history_file (snd (save_meeting_to_history None (Write_fails (Exception (lit ''OSError'')) Missing)
          (numbered_entry 1) ready_world)) = Missing \<and>
   fst (prepare_meeting disk_full (Meeting_prep []) sample_form [] ready_world) =
     Raised (Exception (lit ''OSError'')) \<and>
   read_history_file (Present (Inl (Exception (lit ''OSError'')))) = Inr (Entry_list [])"
proof (intro conjI)
  let ?r = "save_meeting_to_history None (Write_fails (Exception (lit ''OSError'')) Missing)
          (numbered_entry 1) ready_world"
  show "fst ?r = Inl (Exception (lit ''OSError''))"
    by (simp add: save_meeting_to_history_def Let_def write_history_file_def)
  show "meeting_history (session (snd ?r)) = Some [numbered_entry 1]"
    by (simp add: save_meeting_to_history_def Let_def write_history_file_def slice_to_def
        get_meeting_history_def ready_world_def)
  show "history_file (snd ?r) = Missing"
    by (simp add: save_meeting_to_history_def Let_def write_history_file_def)
  have f: "company_name sample_form \<noteq> [] \<and> meeting_objective sample_form \<noteq> []"
    by (simp add: sample_form_def lit_def)
  have t: "truthy (Str (lit ''brief''))" by (simp add: truthy_def lit_def)
  show "fst (prepare_meeting disk_full (Meeting_prep []) sample_form [] ready_world) =
     Raised (Exception (lit ''OSError''))"
    using f t
    by (simp add: prepare_meeting_def disk_full_def result_to_markdown_def Let_def
        generate_slides_def archive_brief_def save_meeting_to_history_def write_history_file_def)
  show "read_history_file (Present (Inl (Exception (lit ''OSError'')))) = Inr (Entry_list [])"
    by (simp add: read_history_file_def file_exists_def read_text_def)
qed

lemma ask_next_objection_backend_error:
  assumes "practice_history (session w) = Some turns" "kickoff env (objection_crew fm turns) = Inl exc"
  shows "ask_next_objection env fm w =
           (Done, emit (St_error (lit ''Error generating objection: '' @ str_exn exc)) w)"
  using assms by (simp add: ask_next_objection_def)

lemma summarize_transcript_backend_error:
  assumes "strip transcript_text \<noteq> []" "kickoff env (transcript_crew fm transcript_text) = Inl exc"
  shows "summarize_transcript env fm transcript_text save_to_library w =
           (Done, emit (St_error (lit ''Error summarizing transcript: '' @ str_exn exc)) w)"
  using assms by (simp add: summarize_transcript_def)

lemma score_my_response_backend_error:
  assumes "strip user_resp \<noteq> []" "practice_history (session w) = Some turns"
    "kickoff env (scoring_crew fm (turns @ [\<lparr>role = lit ''you'', turn.content = user_resp\<rparr>]) user_resp) = Inl exc"
  shows "score_my_response env fm user_resp w =
           (Done, emit (St_error (lit ''Error scoring response: '' @ str_exn exc))
                    (set_practice_history (turns @ [\<lparr>role = lit ''you'', turn.content = user_resp\<rparr>]) w))"
  using assms by (simp add: score_my_response_def Let_def)

text \<open>
  Claim C8, as the code has it. When the backend raises in the transcript summary or in
  the objection generation, the handler shows the error and leaves the whole session
  state and the history file as they were. When it raises in the response scoring, the
  history list and the file are as they were and no coach turn is added, but the practice
  session has grown by the user's turn, which line 1001 appends before the crew runs.
\<close>

theorem ancillary_backend_error:
  "(strip transcript_text \<noteq> [] \<and> kickoff env (transcript_crew fm transcript_text) = Inl exc \<longrightarrow>
      fst (summarize_transcript env fm transcript_text save_to_library w) = Done \<and>
      session (snd (summarize_transcript env fm transcript_text save_to_library w)) = session w \<and>
      history_file (snd (summarize_transcript env fm transcript_text save_to_library w)) = history_file w \<and>
      screen (snd (summarize_transcript env fm transcript_text save_to_library w)) =
        screen w @ [St_error (lit ''Error summarizing transcript: '' @ str_exn exc)]) \<and>
   (practice_history (session w) = Some turns \<and> kickoff env (objection_crew fm turns) = Inl exc \<longrightarrow>
      fst (ask_next_objection env fm w) = Done \<and>
      session (snd (ask_next_objection env fm w)) = session w \<and>
      history_file (snd (ask_next_objection env fm w)) = history_file w \<and>
      screen (snd (ask_next_objection env fm w)) =
        screen w @ [St_error (lit ''Error generating objection: '' @ str_exn exc)]) \<and>
   (strip user_resp \<noteq> [] \<and> practice_history (session w) = Some turns \<and>
    kickoff env (scoring_crew fm (turns @ [\<lparr>role = lit ''you'', turn.content = user_resp\<rparr>]) user_resp) = Inl exc \<longrightarrow>
      fst (score_my_response env fm user_resp w) = Done \<and>
      meeting_history (session (snd (score_my_response env fm user_resp w))) = meeting_history (session w) \<and>
      history_file (snd (score_my_response env fm user_resp w)) = history_file w \<and>
      practice_history (session (snd (score_my_response env fm user_resp w))) =
        Some (turns @ [\<lparr>role = lit ''you'', turn.content = user_resp\<rparr>]) \<and>
      screen (snd (score_my_response env fm user_resp w)) =
        screen w @ [St_error (lit ''Error scoring response: '' @ str_exn exc)])"
proof (intro conjI impI)
  assume h: "strip transcript_text \<noteq> [] \<and> kickoff env (transcript_crew fm transcript_text) = Inl exc"
  then have run: "summarize_transcript env fm transcript_text save_to_library w =
           (Done, emit (St_error (lit ''Error summarizing transcript: '' @ str_exn exc)) w)"
    by (simp add: summarize_transcript_backend_error)
  show "fst (summarize_transcript env fm transcript_text save_to_library w) = Done"
    by (simp add: run)
  show "session (snd (summarize_transcript env fm transcript_text save_to_library w)) = session w"
    by (simp add: run emit_fields)
  show "history_file (snd (summarize_transcript env fm transcript_text save_to_library w)) = history_file w"
    by (simp add: run emit_fields)
  show "screen (snd (summarize_transcript env fm transcript_text save_to_library w)) =
        screen w @ [St_error (lit ''Error summarizing transcript: '' @ str_exn exc)]"
    by (simp add: run emit_fields)
next
  assume h: "practice_history (session w) = Some turns \<and> kickoff env (objection_crew fm turns) = Inl exc"
  then have run: "ask_next_objection env fm w =
           (Done, emit (St_error (lit ''Error generating objection: '' @ str_exn exc)) w)"
    by (simp add: ask_next_objection_backend_error)
  show "fst (ask_next_objection env fm w) = Done" by (simp add: run)
  show "session (snd (ask_next_objection env fm w)) = session w" by (simp add: run emit_fields)
  show "history_file (snd (ask_next_objection env fm w)) = history_file w"
    by (simp add: run emit_fields)
  show "screen (snd (ask_next_objection env fm w)) =
        screen w @ [St_error (lit ''Error generating objection: '' @ str_exn exc)]"
    by (simp add: run emit_fields)
next
  let ?turns = "turns @ [\<lparr>role = lit ''you'', turn.content = user_resp\<rparr>]"
  assume h: "strip user_resp \<noteq> [] \<and> practice_history (session w) = Some turns \<and>
    kickoff env (scoring_crew fm ?turns user_resp) = Inl exc"
  then have run: "score_my_response env fm user_resp w =
           (Done, emit (St_error (lit ''Error scoring response: '' @ str_exn exc))
                    (set_practice_history ?turns w))"
    by (simp add: score_my_response_backend_error)
  show "fst (score_my_response env fm user_resp w) = Done" by (simp add: run)
  show "meeting_history (session (snd (score_my_response env fm user_resp w))) = meeting_history (session w)"
    by (simp add: run emit_fields set_practice_history_fields)
  show "history_file (snd (score_my_response env fm user_resp w)) = history_file w"
    by (simp add: run emit_fields set_practice_history_fields)
  show "practice_history (session (snd (score_my_response env fm user_resp w))) = Some ?turns"
    by (simp add: run emit_fields set_practice_history_fields)
  show "screen (snd (score_my_response env fm user_resp w)) =
        screen w @ [St_error (lit ''Error scoring response: '' @ str_exn exc)]"
    by (simp add: run emit_fields set_practice_history_fields)
qed

lemma strip_reply: "strip (lit ''We can phase the rollout'') \<noteq> []"
  by (simp add: strip_def isspace_def lit_def)

theorem ancillary_backend_error_witness:
  "session (snd (ask_next_objection backend_down sample_form ready_world)) = session ready_world \<and>
   session (snd (summarize_transcript backend_down sample_form (lit ''We can phase the rollout'') True ready_world))
     = session ready_world \<and>
   practice_history (session (snd (score_my_response backend_down sample_form
      (lit ''We can phase the rollout'') ready_world))) =
     Some [\<lparr>role = lit ''you'', turn.content = lit ''We can phase the rollout''\<rparr>] \<and>
   meeting_history (session (snd (score_my_response backend_down sample_form
      (lit ''We can phase the rollout'') ready_world))) = meeting_history (session ready_world)"
proof -
  have p: "practice_history (session ready_world) = Some []" by (simp add: ready_world_def)
  have k: "\<And>c. kickoff backend_down c = Inl (Exception (lit ''backend unreachable''))"
    by (simp add: backend_down_def)
  note th = ancillary_backend_error [of "lit ''We can phase the rollout''" backend_down sample_form
      "Exception (lit ''backend unreachable'')" True ready_world "[]" "lit ''We can phase the rollout''"]
  from th p k strip_reply show ?thesis by simp
qed

text \<open>
  The claim as stated fails for the response scoring: with the backend down, the practice
  session is empty before the call and holds the user's turn after it.
\<close>

theorem failed_scoring_counterexample:
  "fst (score_my_response backend_down sample_form (lit ''We can phase the rollout'') ready_world) = Done \<and>
   practice_history (session ready_world) = Some [] \<and>
   practice_history (session (snd (score_my_response backend_down sample_form
      (lit ''We can phase the rollout'') ready_world))) =
     Some [\<lparr>role = lit ''you'', turn.content = lit ''We can phase the rollout''\<rparr>] \<and>
   practice_history (session (snd (score_my_response backend_down sample_form
      (lit ''We can phase the rollout'') ready_world))) \<noteq> practice_history (session ready_world)"
  using strip_reply
  by (simp add: score_my_response_def Let_def backend_down_def ready_world_def
      set_practice_history_def emit_def)

end
